theory Spec2Isabelle
  imports Main
begin

section \<open>JavaScript strings, characters and numbers\<close>

text \<open>
  A JavaScript string is modelled by \<^typ>\<open>string\<close>: a list of code units, here limited to
  8 bits. A \<open>number\<close> that the code may find to be \<open>NaN\<close> is an \<^typ>\<open>int option\<close>,
  with \<^term>\<open>None\<close> for \<open>NaN\<close>; \<open>undefined\<close> and \<open>null\<close> of an optional field are
  \<^term>\<open>None\<close> as well.
\<close>

definition isDigit :: "char \<Rightarrow> bool" where
  \<comment> \<open>the regular expression class \<open>\d\<close>\<close>
  "isDigit c = (c \<in> set ''0123456789'')"

definition isSpace :: "char \<Rightarrow> bool" where
  \<comment> \<open>the class \<open>\s\<close>, on the code units below 256: space, TAB, LF, VT, FF, CR, NBSP\<close>
  "isSpace c = (c \<in> set [CHR '' '', CHR 0x09, CHR 0x0A, CHR 0x0B, CHR 0x0C, CHR 0x0D, CHR 0xA0])"

definition digitVal :: "char \<Rightarrow> int" where
  "digitVal c = int (of_char c) - 48"

definition parseInt :: "string \<Rightarrow> int" where
  \<comment> \<open>\<open>parseInt(s, 10)\<close> on a string of decimal digits\<close>
  "parseInt ds = foldl (\<lambda>a c. 10 * a + digitVal c) 0 ds"

definition toLowerChar :: "char \<Rightarrow> char" where
  "toLowerChar c =
     (case map_of (zip ''ABCDEFGHIJKLMNOPQRSTUVWXYZ'' ''abcdefghijklmnopqrstuvwxyz'') c of
        Some l \<Rightarrow> l
      | None \<Rightarrow> c)"

definition toLowerCase :: "string \<Rightarrow> string" where
  "toLowerCase s = map toLowerChar s"

definition digitChar :: "nat \<Rightarrow> char" where
  "digitChar n = ''0123456789'' ! (n mod 10)"

fun showNat :: "nat \<Rightarrow> string" where
  \<comment> \<open>\<open>String(n)\<close> for a non-negative integer\<close>
  "showNat n = (if n < 10 then [digitChar n] else showNat (n div 10) @ [digitChar n])"

declare showNat.simps [simp del]

definition padStart :: "nat \<Rightarrow> string \<Rightarrow> string" where
  \<comment> \<open>\<open>s.padStart(w, '0')\<close>\<close>
  "padStart w s = replicate (w - length s) CHR ''0'' @ s"

definition truthyStr :: "string option \<Rightarrow> bool" where
  \<comment> \<open>truthiness of a value that is a string, \<open>null\<close> or \<open>undefined\<close>\<close>
  "truthyStr v = (case v of None \<Rightarrow> False | Some s \<Rightarrow> s \<noteq> [])"

definition orElse :: "string option \<Rightarrow> string \<Rightarrow> string" where
  \<comment> \<open>\<open>v || d\<close> for such a value and a string default\<close>
  "orElse v d = (case v of None \<Rightarrow> d | Some s \<Rightarrow> if s = [] then d else s)"

definition indexOf :: "'a list \<Rightarrow> 'a \<Rightarrow> int" where
  \<comment> \<open>\<open>Array.prototype.indexOf\<close>: the first position, or \<open>-1\<close>\<close>
  "indexOf xs x = (if x \<in> set xs then int (length (takeWhile (\<lambda>y. y \<noteq> x) xs)) else - 1)"


section \<open>Time utilities (\<open>timeutils.ts\<close>)\<close>

definition isAmPm :: "string \<Rightarrow> bool" where
  \<comment> \<open>\<open>(AM|PM)\<close> under the flag \<open>i\<close>\<close>
  "isAmPm s = (case s of [a, m] \<Rightarrow> a \<in> set ''aApP'' \<and> m \<in> set ''mM'' | _ \<Rightarrow> False)"

definition parseTimeToMinutes :: "string \<Rightarrow> int option" where
  \<comment> \<open>the match of \<open>/^(\d{1,2}):(\d{2})\s*(AM|PM)$/i\<close>, then the range checks\<close>
  "parseTimeToMinutes timeString =
     (if timeString = [] then None
      else
        let hs = takeWhile isDigit timeString;
            r = dropWhile isDigit timeString
        in if length hs < 1 \<or> 2 < length hs then None
           else (case r of
               c # m1 # m2 # t \<Rightarrow>
                 if c = CHR '':'' \<and> isDigit m1 \<and> isDigit m2 \<and> isAmPm (dropWhile isSpace t) then
                   let hours = parseInt hs;
                       minutes = parseInt [m1, m2];
                       pm = (hd (dropWhile isSpace t) \<in> set ''pP'')
                   in if hours < 1 \<or> 12 < hours \<or> minutes < 0 \<or> 59 < minutes then None
                      else
                        let hours' = (if hours = 12 then (if pm then 12 else 0)
                                      else if pm then hours + 12 else hours)
                        in if hours' < 0 \<or> 23 < hours' then None
                           else Some (hours' * 60 + minutes)
                 else None
             | _ \<Rightarrow> None))"


section \<open>Dates\<close>

text \<open>
  A \<open>Date\<close> is its time value, counted here in minutes since the epoch (every \<open>Date\<close> of
  the formatter has zero seconds and milliseconds). The local time zone of the process is
  a fixed offset \<open>off\<close>, in minutes east of UTC; a zone with daylight-saving transitions is
  outside this model. Day numbers count from 1970-01-01, a Thursday.
\<close>

type_synonym jsDate = int

definition daysFromCivil :: "int \<Rightarrow> int \<Rightarrow> int \<Rightarrow> int" where
  \<comment> \<open>day number of the first of month \<open>m\<close> of year \<open>y\<close>, plus \<open>d - 1\<close> (days past the end of
      the month roll over, as \<open>MakeDay\<close> does)\<close>
  "daysFromCivil y m d =
     (let y' = (if m \<le> 2 then y - 1 else y);
          era = y' div 400;
          yoe = y' - era * 400;
          doy = (153 * (if 2 < m then m - 3 else m + 9) + 2) div 5 + d - 1;
          doe = yoe * 365 + yoe div 4 - yoe div 100 + doy
      in era * 146097 + doe - 719468)"

definition civilFromDays :: "int \<Rightarrow> int \<times> int \<times> int" where
  "civilFromDays z =
     (let z' = z + 719468;
          era = z' div 146097;
          doe = z' - era * 146097;
          yoe = (doe - doe div 1460 + doe div 36524 - doe div 146096) div 365;
          doy = doe - (365 * yoe + yoe div 4 - yoe div 100);
          mp = (5 * doy + 2) div 153;
          d = doy - (153 * mp + 2) div 5 + 1;
          m = (if mp < 10 then mp + 3 else mp - 9)
      in (yoe + era * 400 + (if m \<le> 2 then 1 else 0), m, d))"

definition dateRegexTest :: "string \<Rightarrow> bool" where
  \<comment> \<open>\<open>/^\d{4}-\d{2}-\d{2}$/.test(s)\<close>\<close>
  "dateRegexTest s =
     (length s = 10 \<and> list_all (\<lambda>i. isDigit (s ! i)) [0, 1, 2, 3, 5, 6, 8, 9]
      \<and> s ! 4 = CHR ''-'' \<and> s ! 7 = CHR ''-'')"

definition newDateLocalMidnight :: "int \<Rightarrow> string \<Rightarrow> jsDate option" where
  \<comment> \<open>\<open>new Date(`${s}T00:00:00`)\<close>: a date-time without offset is local time. V8 takes a
      month in 1..12 and a day in 1..31; any other string is an invalid \<open>Date\<close> here.\<close>
  "newDateLocalMidnight off s =
     (if dateRegexTest s then
        let y = parseInt (take 4 s); m = parseInt (take 2 (drop 5 s)); d = parseInt (drop 8 s)
        in if 1 \<le> m \<and> m \<le> 12 \<and> 1 \<le> d \<and> d \<le> 31
           then Some (daysFromCivil y m d * 1440 - off) else None
      else None)"

definition getDay :: "int \<Rightarrow> jsDate \<Rightarrow> int" where
  \<comment> \<open>local day of the week, 0 for Sunday\<close>
  "getDay off t = (4 + (t + off) div 1440) mod 7"

definition addDays :: "jsDate \<Rightarrow> int \<Rightarrow> jsDate" where
  \<comment> \<open>\<open>t.setDate(t.getDate() + k)\<close>\<close>
  "addDays t k = t + k * 1440"

definition setHours :: "int \<Rightarrow> jsDate \<Rightarrow> int \<Rightarrow> int \<Rightarrow> jsDate" where
  \<comment> \<open>\<open>t.setHours(h, m, 0, 0)\<close>\<close>
  "setHours off t h m = ((t + off) div 1440) * 1440 + h * 60 + m - off"

definition showInt2 :: "int \<Rightarrow> string" where
  "showInt2 n = padStart 2 (showNat (nat n))"

definition isoYear :: "int \<Rightarrow> string" where
  \<comment> \<open>the year of \<open>toISOString\<close>: four digits, or a sign and six digits\<close>
  "isoYear y =
     (if 0 \<le> y \<and> y \<le> 9999 then padStart 4 (showNat (nat y))
      else (if y < 0 then ''-'' else ''+'') @ padStart 6 (showNat (nat \<bar>y\<bar>)))"

definition isoDateCompact :: "jsDate \<Rightarrow> string" where
  \<comment> \<open>\<open>t.toISOString().split('T')[0].replace(/-/g, '')\<close>: the UTC calendar date\<close>
  "isoDateCompact t =
     (case civilFromDays (t div 1440) of
        (y, m, d) \<Rightarrow> filter (\<lambda>c. c \<noteq> CHR ''-'') (isoYear y @ ''-'' @ showInt2 m @ ''-'' @ showInt2 d))"

definition formatLocal :: "int \<Rightarrow> jsDate \<Rightarrow> string" where
  \<comment> \<open>the tokens \<open>yyyy-MM-dd'T'HH:mm:ss\<close> of \<open>format\<close>: the local fields of the date\<close>
  "formatLocal off t =
     (let l = t + off; tod = l mod 1440
      in case civilFromDays (l div 1440) of
           (y, m, d) \<Rightarrow>
             padStart 4 (showNat (nat (if 0 < y then y else 1 - y))) @ ''-'' @ showInt2 m @ ''-''
             @ showInt2 d @ ''T'' @ showInt2 (tod div 60) @ '':'' @ showInt2 (tod mod 60) @ '':00'')"


section \<open>Calendar event formatter (\<open>calendar.service.ts\<close>)\<close>

record ScheduleEvent =
  courseCode :: string
  courseName :: "string option"
  sectionDetails :: "string option"
  days :: "string list"
  startTime :: string
  endTime :: string
  location :: "string option"

record ScheduleData =
  termStartDate :: "string option"
  termEndDate :: "string option"
  scheduleEvents :: "ScheduleEvent list"

record EventDateTime =
  dateTime :: string
  timeZone :: string

record GoogleCalendarEvent =
  summary :: "string option"
  eventLocation :: "string option"
  description :: string
  eventStart :: EventDateTime
  eventEnd :: EventDateTime
  recurrence :: "string list"
  remindersUseDefault :: bool
  remindersOverrides :: "(string \<times> nat) list"
  colorId :: "string option"

definition dayNameToRRULE :: "(string \<times> string) list" where
  "dayNameToRRULE =
     [(''monday'', ''MO''), (''tuesday'', ''TU''), (''wednesday'', ''WE''), (''thursday'', ''TH''),
      (''friday'', ''FR''), (''saturday'', ''SA''), (''sunday'', ''SU'')]"

definition GOOGLE_COLOR_IDS :: "string list" where
  "GOOGLE_COLOR_IDS = [''1'', ''2'', ''3'', ''4'', ''5'', ''6''] @ [''7'', ''8'', ''9'', ''10'', ''11'']"

definition inheritedProps :: "(string \<times> string) list" where
  \<comment> \<open>\<open>dayNameToRRULE\<close> is an object literal: a lookup also finds the properties of
      \<open>Object.prototype\<close>. Two of them have a lower-case name; both are truthy, and
      \<open>join\<close> prints them as shown.\<close>
  "inheritedProps =
     [(''constructor'', ''function Object() { [native code] }''), (''__proto__'', ''[object Object]'')]"

definition rruleLookup :: "string \<Rightarrow> string option" where
  \<comment> \<open>\<open>dayNameToRRULE[d]\<close>, as \<open>join\<close> prints it; \<^term>\<open>None\<close> for \<open>undefined\<close>\<close>
  "rruleLookup d = map_of (dayNameToRRULE @ inheritedProps) d"

text \<open>
  The environment of one call: whether \<open>Intl.DateTimeFormat\<close> accepts a time zone name,
  the offset of the process's local zone, the offset token \<open>XXX\<close> that \<open>date-fns-tz\<close>
  prints for a zone at an instant, and the draws of \<open>Math.random\<close>: the \<open>k\<close>-th draw, on a
  list of \<open>n\<close> colours, gives the index \<open>random env k mod n\<close>.
\<close>

record cal_env =
  validTimeZone :: "string \<Rightarrow> bool"
  localOffset :: int
  zoneXXX :: "string \<Rightarrow> jsDate \<Rightarrow> string"
  random :: "nat \<Rightarrow> nat"

datatype format_error =
    InvalidUserTimeZone string
  | MissingTermDates
  | InvalidTermDateFormat

datatype skip_reason =
    MissingDays
  | MissingTimes
  | InvalidTimeOrDay
  | StartNotBeforeEnd
  | NoFirstOccurrenceDay
  | FirstOccurrenceAfterTermEnd

record color_state =
  courseColorMap :: "string \<rightharpoonup> string"
  availableColors :: "string list"
  fallbackColorIndex :: nat
  randomCalls :: nat

definition initialColors :: color_state where
  "initialColors =
     \<lparr>courseColorMap = Map.empty, availableColors = GOOGLE_COLOR_IDS,
      fallbackColorIndex = 0, randomCalls = 0\<rparr>"

definition assignColor :: "(nat \<Rightarrow> nat) \<Rightarrow> string \<Rightarrow> color_state \<Rightarrow> string option \<times> color_state" where
  "assignColor rnd code st =
     (if code \<noteq> [] \<and> courseColorMap st code \<noteq> None then (courseColorMap st code, st)
      else if code \<noteq> [] then
        (if 0 < length (availableColors st) then
           let randomIndex = rnd (randomCalls st) mod length (availableColors st);
               assignedColor = availableColors st ! randomIndex
           in (Some assignedColor,
               st\<lparr>courseColorMap := (courseColorMap st)(code \<mapsto> assignedColor),
                  availableColors :=
                    take randomIndex (availableColors st) @ drop (Suc randomIndex) (availableColors st),
                  randomCalls := Suc (randomCalls st)\<rparr>)
         else
           let assignedColor = GOOGLE_COLOR_IDS ! (fallbackColorIndex st mod length GOOGLE_COLOR_IDS)
           in (Some assignedColor,
               st\<lparr>courseColorMap := (courseColorMap st)(code \<mapsto> assignedColor),
                  fallbackColorIndex := Suc (fallbackColorIndex st)\<rparr>))
      else (None, st))"

definition dayDiff :: "int \<Rightarrow> string \<Rightarrow> int" where
  \<comment> \<open>the body of the loop over \<open>daysOfWeek\<close>: the days from the day of the week of the
      term start to \<open>dayName\<close>\<close>
  "dayDiff startDayOfWeek dayName =
     (let targetDayIndex = indexOf (map fst dayNameToRRULE) dayName;
          currentDayIndex = (if startDayOfWeek = 0 then 6 else startDayOfWeek - 1);
          diff = targetDayIndex - currentDayIndex
      in if diff < 0 then diff + 7 else diff)"

fun daysToAddLoop :: "int \<Rightarrow> string list \<Rightarrow> int \<Rightarrow> int" where
  \<comment> \<open>the loop over \<open>daysOfWeek\<close> that lowers \<open>daysToAdd\<close>\<close>
  "daysToAddLoop startDayOfWeek [] daysToAdd = daysToAdd"
| "daysToAddLoop startDayOfWeek (dayName # rest) daysToAdd =
     daysToAddLoop startDayOfWeek rest (min daysToAdd (dayDiff startDayOfWeek dayName))"

definition joinComma :: "string list \<Rightarrow> string" where
  "joinComma xs = concat (case xs of [] \<Rightarrow> [] | x # r \<Rightarrow> x # map (\<lambda>y. '','' @ y) r)"

definition eventSummary :: "ScheduleEvent \<Rightarrow> string" where
  "eventSummary event =
     courseCode event
     @ (if truthyStr (sectionDetails event) then '' ('' @ the (sectionDetails event) @ '')'' else [])
     @ (if truthyStr (courseName event) then '' - '' @ the (courseName event) else [])"

definition eventDescription :: "ScheduleEvent \<Rightarrow> string" where
  "eventDescription event =
     ''Course: '' @ orElse (Some (courseCode event)) ''N/A'' @ [CHR 0x0A]
     @ ''Section: '' @ orElse (sectionDetails event) ''N/A'' @ [CHR 0x0A]
     @ ''Name: '' @ orElse (courseName event) ''N/A''"

definition googleEventOf ::
  "cal_env \<Rightarrow> string \<Rightarrow> ScheduleEvent \<Rightarrow> jsDate \<Rightarrow> jsDate \<Rightarrow> string \<Rightarrow> string option
     \<Rightarrow> GoogleCalendarEvent" where
  \<comment> \<open>the object literal \<open>googleEvent\<close>, with the two calls of \<open>format\<close>\<close>
  "googleEventOf env userTimeZone event startDateTime endDateTime recurrenceRule eventColorId =
     \<lparr>summary = Some (eventSummary event),
      eventLocation = location event,
      description = eventDescription event,
      eventStart = \<lparr>dateTime = formatLocal (localOffset env) startDateTime
                                 @ zoneXXX env userTimeZone startDateTime,
                    timeZone = userTimeZone\<rparr>,
      eventEnd = \<lparr>dateTime = formatLocal (localOffset env) endDateTime
                               @ zoneXXX env userTimeZone endDateTime,
                  timeZone = userTimeZone\<rparr>,
      recurrence = [recurrenceRule],
      remindersUseDefault = False,
      remindersOverrides = [(''popup'', 15)],
      colorId = eventColorId\<rparr>"

definition formatEvent ::
  "cal_env \<Rightarrow> string \<Rightarrow> jsDate \<Rightarrow> jsDate \<Rightarrow> string \<Rightarrow> ScheduleEvent \<Rightarrow> color_state
     \<Rightarrow> (skip_reason + GoogleCalendarEvent) \<times> color_state" where
  \<comment> \<open>the body of the \<open>forEach\<close> callback: \<^term>\<open>Inl\<close> is a logged skip, \<^term>\<open>Inr\<close> the
      descriptor pushed to \<open>googleEvents\<close>\<close>
  "formatEvent env userTimeZone termStart untilDate rruleEndDateUTC event st =
     (if days event = [] then (Inl MissingDays, st)
      else if startTime event = [] \<or> endTime event = [] then (Inl MissingTimes, st)
      else
        let startMinutes = parseTimeToMinutes (startTime event);
            endMinutes = parseTimeToMinutes (endTime event);
            daysOfWeek = filter (\<lambda>d. rruleLookup d \<noteq> None) (map toLowerCase (days event))
        in if daysOfWeek = [] \<or> startMinutes = None \<or> endMinutes = None
           then (Inl InvalidTimeOrDay, st)
           else if the endMinutes \<le> the startMinutes then (Inl StartNotBeforeEnd, st)
           else
             let startDayOfWeek = getDay (localOffset env) termStart;
                 daysToAdd = daysToAddLoop startDayOfWeek daysOfWeek 7
             in if daysToAdd = 7 then (Inl NoFirstOccurrenceDay, st)
                else
                  let firstOccurrence = addDays termStart daysToAdd;
                      startDateTime = setHours (localOffset env) firstOccurrence
                                        (the startMinutes div 60) (the startMinutes mod 60);
                      endDateTime = setHours (localOffset env) firstOccurrence
                                      (the endMinutes div 60) (the endMinutes mod 60)
                  in if untilDate \<le> startDateTime then (Inl FirstOccurrenceAfterTermEnd, st)
                     else
                       let rruleDays = joinComma (map (\<lambda>d. the (rruleLookup d)) daysOfWeek);
                           recurrenceRule = ''RRULE:FREQ=WEEKLY;BYDAY='' @ rruleDays
                                            @ '';UNTIL='' @ rruleEndDateUTC;
                           (eventColorId, st') = assignColor (random env) (courseCode event) st
                       in (Inr (googleEventOf env userTimeZone event startDateTime endDateTime
                                  recurrenceRule eventColorId), st'))"

fun forEachEvent ::
  "cal_env \<Rightarrow> string \<Rightarrow> jsDate \<Rightarrow> jsDate \<Rightarrow> string \<Rightarrow> ScheduleEvent list \<Rightarrow> color_state
     \<Rightarrow> (skip_reason + GoogleCalendarEvent) list" where
  \<comment> \<open>the outcome of each iteration of \<open>scheduleEvents.forEach\<close>, in order\<close>
  "forEachEvent env tz termStart untilDate until [] st = []"
| "forEachEvent env tz termStart untilDate until (event # rest) st =
     (case formatEvent env tz termStart untilDate until event st of
        (outcome, st') \<Rightarrow> outcome # forEachEvent env tz termStart untilDate until rest st')"

definition formatOutcomes ::
  "cal_env \<Rightarrow> ScheduleData \<Rightarrow> string \<Rightarrow> format_error + (skip_reason + GoogleCalendarEvent) list" where
  "formatOutcomes env scheduleData userTimeZone =
     (if \<not> validTimeZone env userTimeZone then Inl (InvalidUserTimeZone userTimeZone)
      else if \<not> truthyStr (termStartDate scheduleData) \<or> \<not> truthyStr (termEndDate scheduleData)
      then Inl MissingTermDates
      else
        (case (newDateLocalMidnight (localOffset env) (the (termStartDate scheduleData)),
               newDateLocalMidnight (localOffset env) (the (termEndDate scheduleData))) of
           (Some termStart, Some termEndDayStart) \<Rightarrow>
             let untilDate = addDays termEndDayStart 1;
                 rruleEndDateUTC = isoDateCompact untilDate @ ''T000000Z''
             in Inr (forEachEvent env userTimeZone termStart untilDate rruleEndDateUTC
                       (scheduleEvents scheduleData) initialColors)
         | _ \<Rightarrow> Inl InvalidTermDateFormat))"

definition pushed :: "(skip_reason + GoogleCalendarEvent) list \<Rightarrow> GoogleCalendarEvent list" where
  \<comment> \<open>the array \<open>googleEvents\<close>: the descriptors of the iterations that were not skipped\<close>
  "pushed outcomes = [g. Inr g \<leftarrow> outcomes]"

definition formatEventsForGoogle ::
  "cal_env \<Rightarrow> ScheduleData \<Rightarrow> string \<Rightarrow> format_error + GoogleCalendarEvent list" where
  "formatEventsForGoogle env scheduleData userTimeZone =
     map_sum id pushed (formatOutcomes env scheduleData userTimeZone)"


section \<open>Calendar event submitter (\<open>calendar.service.ts\<close>)\<close>

text \<open>
  The calendar API is a parameter: \<open>calendarInsert i event\<close> is how the \<open>i\<close>-th call of
  \<open>calendar.events.insert\<close> settles. A rejection carries the three values the \<open>catch\<close> block
  reads from it. The limiter only bounds how many calls are in flight: \<open>Promise.allSettled\<close>
  waits for all of them and keeps the results in input order, so the schedule of the calls
  is not part of the model. The limiter itself refuses a concurrency that is not a
  positive integer.
\<close>

record ApiError =
  responseErrorMessage :: "string option"
  thrownMessage :: "string option"
  responseStatus :: "int option"

datatype insert_outcome = Inserted | InsertFailed ApiError

record Rejection =
  rejIndex :: nat
  rejEventSummary :: "string option"
  rejError :: string
  rejStatusCode :: "int option"

datatype settled = Fulfilled nat | Rejected Rejection

record CreationError =
  errEventSummary :: string
  errError :: string
  errStatus :: "int option"

record CreationResult =
  successCount :: nat
  errors :: "CreationError list"

datatype submit_error = InvalidConcurrency

definition parseIntJS :: "string \<Rightarrow> int option" where
  \<comment> \<open>\<open>parseInt(s, 10)\<close>: leading white space, a sign, then the longest run of digits\<close>
  "parseIntJS s =
     (let t = dropWhile isSpace s;
          neg = (t \<noteq> [] \<and> hd t = CHR ''-'');
          u = (if t \<noteq> [] \<and> (hd t = CHR ''-'' \<or> hd t = CHR ''+'') then tl t else t);
          ds = takeWhile isDigit u
      in if ds = [] then None else Some (if neg then - parseInt ds else parseInt ds))"

definition insertTask ::
  "(nat \<Rightarrow> GoogleCalendarEvent \<Rightarrow> insert_outcome) \<Rightarrow> nat \<Rightarrow> GoogleCalendarEvent \<Rightarrow> settled" where
  \<comment> \<open>the function given to \<open>limit\<close> for one event\<close>
  "insertTask calendarInsert index event =
     (case calendarInsert index event of
        Inserted \<Rightarrow> Fulfilled index
      | InsertFailed error \<Rightarrow>
          let errorMessage = orElse (responseErrorMessage error)
                               (orElse (thrownMessage error) ''Unknown error during event insertion'');
              errorStatus = responseStatus error
          in Rejected \<lparr>rejIndex = index, rejEventSummary = summary event,
                        rejError = errorMessage, rejStatusCode = errorStatus\<rparr>)"

fun insertPromises ::
  "(nat \<Rightarrow> GoogleCalendarEvent \<Rightarrow> insert_outcome) \<Rightarrow> nat \<Rightarrow> GoogleCalendarEvent list \<Rightarrow> settled list" where
  \<comment> \<open>\<open>events.map((event, index) => limit(...))\<close>, settled; the index starts at the second argument\<close>
  "insertPromises calendarInsert index [] = []"
| "insertPromises calendarInsert index (event # rest) =
     insertTask calendarInsert index event # insertPromises calendarInsert (Suc index) rest"

definition summaryAt :: "GoogleCalendarEvent list \<Rightarrow> nat \<Rightarrow> string option" where
  \<comment> \<open>\<open>events[index]?.summary\<close>\<close>
  "summaryAt events index = (if index < length events then summary (events ! index) else None)"

fun collectResults ::
  "GoogleCalendarEvent list \<Rightarrow> settled list \<Rightarrow> nat \<Rightarrow> CreationResult \<Rightarrow> CreationResult" where
  \<comment> \<open>\<open>results.forEach((result, index) => ...)\<close> on \<open>successCount\<close> and \<open>errors\<close>\<close>
  "collectResults events [] index acc = acc"
| "collectResults events (result # rest) index acc =
     collectResults events rest (Suc index)
       (case result of
          Fulfilled _ \<Rightarrow> acc\<lparr>successCount := Suc (successCount acc)\<rparr>
        | Rejected reason \<Rightarrow>
            acc\<lparr>errors := errors acc @
                  [\<lparr>errEventSummary =
                      orElse (rejEventSummary reason)
                        (orElse (summaryAt events index) (''Event '' @ showNat index)),
                    errError = orElse (Some (rejError reason)) ''Unknown failure reason'',
                    errStatus = rejStatusCode reason\<rparr>]\<rparr>)"

definition createCalendarEvents ::
  "string option \<Rightarrow> (nat \<Rightarrow> GoogleCalendarEvent \<Rightarrow> insert_outcome) \<Rightarrow> GoogleCalendarEvent list
     \<Rightarrow> submit_error + CreationResult" where
  \<comment> \<open>the first argument is the environment variable \<open>GOOGLE_API_CONCURRENCY\<close>\<close>
  "createCalendarEvents concurrencyVar calendarInsert events =
     (case parseIntJS (orElse concurrencyVar ''5'') of
        None \<Rightarrow> Inl InvalidConcurrency
      | Some CONCURRENCY \<Rightarrow>
          if CONCURRENCY < 1 then Inl InvalidConcurrency
          else Inr (collectResults events (insertPromises calendarInsert 0 events) 0
                      \<lparr>successCount = 0, errors = []\<rparr>))"


section \<open>Schemas (\<open>zod\<close>) on untyped values\<close>

text \<open>
  What the extraction returns and what is read back from the store is any JSON value;
  \<open>JUndefined\<close> is what reading a missing property gives. An object is an association
  list with distinct keys. A schema returns the parsed value, or \<^term>\<open>None\<close> where
  \<open>parse\<close> throws a \<open>ZodError\<close>; an object schema keeps the declared keys only.
\<close>

datatype jsval =
    JUndefined
  | JNull
  | JBool bool
  | JNum int
  | JStr string
  | JArr "jsval list"
  | JObj "(string \<times> jsval) list"

definition getProp :: "jsval \<Rightarrow> string \<Rightarrow> jsval" where
  \<comment> \<open>\<open>v[k]\<close> for a property name that no prototype defines\<close>
  "getProp v k =
     (case v of
        JObj kvs \<Rightarrow> (case map_of kvs k of Some x \<Rightarrow> x | None \<Rightarrow> JUndefined)
      | _ \<Rightarrow> JUndefined)"

definition truthy :: "jsval \<Rightarrow> bool" where
  "truthy v =
     (case v of
        JUndefined \<Rightarrow> False | JNull \<Rightarrow> False | JBool b \<Rightarrow> b | JNum n \<Rightarrow> n \<noteq> 0
      | JStr s \<Rightarrow> s \<noteq> [] | JArr _ \<Rightarrow> True | JObj _ \<Rightarrow> True)"

definition isArray :: "jsval \<Rightarrow> bool" where
  "isArray v = (case v of JArr _ \<Rightarrow> True | _ \<Rightarrow> False)"

definition arrayItems :: "jsval \<Rightarrow> jsval list" where
  "arrayItems v = (case v of JArr xs \<Rightarrow> xs | _ \<Rightarrow> [])"

definition isObject :: "jsval \<Rightarrow> bool" where
  "isObject v = (case v of JObj _ \<Rightarrow> True | _ \<Rightarrow> False)"

definition zString :: "jsval \<Rightarrow> string option" where
  \<comment> \<open>\<open>z.string()\<close>\<close>
  "zString v = (case v of JStr s \<Rightarrow> Some s | _ \<Rightarrow> None)"

definition zNullable :: "(jsval \<Rightarrow> 'a option) \<Rightarrow> jsval \<Rightarrow> 'a option option" where
  \<comment> \<open>\<open>.nullable()\<close>: \<open>null\<close> parses to \<open>null\<close>\<close>
  "zNullable inner v = (if v = JNull then Some None else map_option Some (inner v))"

definition zOptional :: "(jsval \<Rightarrow> 'a option) \<Rightarrow> jsval \<Rightarrow> 'a option option" where
  \<comment> \<open>\<open>.optional()\<close>: \<open>undefined\<close> parses to \<open>undefined\<close>\<close>
  "zOptional inner v = (if v = JUndefined then Some None else map_option Some (inner v))"

definition zArray :: "(jsval \<Rightarrow> 'a option) \<Rightarrow> jsval \<Rightarrow> 'a list option" where
  \<comment> \<open>\<open>z.array(inner)\<close>\<close>
  "zArray inner v =
     (case v of
        JArr xs \<Rightarrow> if list_all (\<lambda>x. inner x \<noteq> None) xs then Some (map (\<lambda>x. the (inner x)) xs) else None
      | _ \<Rightarrow> None)"

definition timeAfterHour :: "string \<Rightarrow> bool" where
  \<comment> \<open>\<open>:\d{2}\s*(AM|PM)\<close> at the start of the string\<close>
  "timeAfterHour r =
     (case r of
        c # m1 # m2 # t \<Rightarrow> c = CHR '':'' \<and> isDigit m1 \<and> isDigit m2 \<and> isAmPm (take 2 (dropWhile isSpace t))
      | _ \<Rightarrow> False)"

definition timePrefix :: "string \<Rightarrow> bool" where
  \<comment> \<open>\<open>\d{1,2}:\d{2}\s*(AM|PM)\<close> at the start of the string\<close>
  "timePrefix s =
     (case s of
        [] \<Rightarrow> False
      | d1 # r \<Rightarrow>
          isDigit d1 \<and> (timeAfterHour r \<or> (case r of [] \<Rightarrow> False | d2 # r2 \<Rightarrow> isDigit d2 \<and> timeAfterHour r2)))"

fun timeRegexTest :: "string \<Rightarrow> bool" where
  \<comment> \<open>\<open>/\d{1,2}:\d{2}\s*(AM|PM)/i.test(s)\<close>: the expression has no anchor, a match may start
      anywhere\<close>
  "timeRegexTest [] = False"
| "timeRegexTest (c # s) = (timePrefix (c # s) \<or> timeRegexTest s)"

definition zTimeString :: "jsval \<Rightarrow> string option" where
  "zTimeString v = (case v of JStr s \<Rightarrow> if timeRegexTest s then Some s else None | _ \<Rightarrow> None)"

definition dateStringSchema :: "jsval \<Rightarrow> string option" where
  "dateStringSchema v = (case v of JStr s \<Rightarrow> if dateRegexTest s then Some s else None | _ \<Rightarrow> None)"

definition zDaysMin1 :: "jsval \<Rightarrow> string list option" where
  \<comment> \<open>\<open>z.array(z.string()).min(1)\<close>\<close>
  "zDaysMin1 v = (case zArray zString v of Some ds \<Rightarrow> if 1 \<le> length ds then Some ds else None | None \<Rightarrow> None)"

definition scheduleEventSchema :: "jsval \<Rightarrow> ScheduleEvent option" where
  "scheduleEventSchema v =
     (if \<not> isObject v then None
      else
        (case (zString (getProp v ''courseCode''), zNullable zString (getProp v ''courseName''),
               zNullable zString (getProp v ''sectionDetails''), zDaysMin1 (getProp v ''days'')) of
           (Some cc, Some cn, Some sd, Some ds) \<Rightarrow>
             (case (zTimeString (getProp v ''startTime''), zTimeString (getProp v ''endTime''),
                    zNullable zString (getProp v ''location'')) of
                (Some st, Some et, Some loc) \<Rightarrow>
                  Some \<lparr>courseCode = cc, courseName = cn, sectionDetails = sd, days = ds,
                        startTime = st, endTime = et, location = loc\<rparr>
              | _ \<Rightarrow> None)
         | _ \<Rightarrow> None))"

definition scheduleDataSchema :: "jsval \<Rightarrow> ScheduleData option" where
  "scheduleDataSchema v =
     (if \<not> isObject v then None
      else
        (case (zNullable dateStringSchema (getProp v ''termStartDate''),
               zNullable dateStringSchema (getProp v ''termEndDate''),
               zArray scheduleEventSchema (getProp v ''scheduleEvents'')) of
           (Some s, Some e, Some evs) \<Rightarrow>
             Some \<lparr>termStartDate = s, termEndDate = e, scheduleEvents = evs\<rparr>
         | _ \<Rightarrow> None))"

record ProcessingError =
  errFilename :: "string option"
  errText :: string

record ProcessingWarning =
  warnFilename :: "string option"
  warnMessage :: string
  warnField :: "string option"
  warnValue :: "jsval option"

record PreviewResult =
  scheduleData :: ScheduleData
  processingWarnings :: "ProcessingWarning list"
  processingErrors :: "ProcessingError list"

definition processingErrorSchema :: "jsval \<Rightarrow> ProcessingError option" where
  "processingErrorSchema v =
     (if \<not> isObject v then None
      else
        (case (zString (getProp v ''filename''), zString (getProp v ''error'')) of
           (Some f, Some e) \<Rightarrow> Some \<lparr>errFilename = Some f, errText = e\<rparr>
         | _ \<Rightarrow> None))"

definition processingWarningSchema :: "jsval \<Rightarrow> ProcessingWarning option" where
  "processingWarningSchema v =
     (if \<not> isObject v then None
      else
        (case (zOptional zString (getProp v ''filename''), zString (getProp v ''message''),
               zOptional zString (getProp v ''field'')) of
           (Some f, Some m, Some fld) \<Rightarrow>
             Some \<lparr>warnFilename = f, warnMessage = m, warnField = fld,
                   warnValue = (if getProp v ''value'' = JUndefined then None else Some (getProp v ''value''))\<rparr>
         | _ \<Rightarrow> None))"

definition zArrayDefault :: "(jsval \<Rightarrow> 'a option) \<Rightarrow> jsval \<Rightarrow> 'a list option" where
  \<comment> \<open>\<open>z.array(inner).default([])\<close>\<close>
  "zArrayDefault inner v = (if v = JUndefined then Some [] else zArray inner v)"

definition previewResultSchema :: "jsval \<Rightarrow> PreviewResult option" where
  "previewResultSchema v =
     (if \<not> isObject v then None
      else
        (case (scheduleDataSchema (getProp v ''scheduleData''),
               zArrayDefault processingWarningSchema (getProp v ''processingWarnings''),
               zArrayDefault processingErrorSchema (getProp v ''processingErrors'')) of
           (Some sd, Some ws, Some es) \<Rightarrow>
             Some \<lparr>scheduleData = sd, processingWarnings = ws, processingErrors = es\<rparr>
         | _ \<Rightarrow> None))"


section \<open>Worker (\<open>worker.service.ts\<close>)\<close>

text \<open>
  The environment of one job: what reading the \<open>i\<close>-th file and extracting from it give
  (an \<open>Error\<close> thrown by either, with its \<open>message\<close>, or the value the extraction
  returns), whether the \<open>i\<close>-th \<open>unlink\<close> fails, whether the \<open>SET\<close> of the store fails, and
  \<open>JSON.stringify\<close>. The state of the job holds the variables of \<open>processAiJob\<close>, the
  temporary files on disk, the calls of \<open>unlink\<close> made so far and the entries logged at
  level \<open>warn\<close> or \<open>error\<close> (entries at level \<open>info\<close> are left out).
\<close>

record AiJobData =
  sessionId :: string
  tempFilePaths :: "string list"
  mimeTypes :: "string list"
  originalFilenames :: "string list"

datatype file_outcome =
    ReadFileThrows "string option"
  | ExtractThrows "string option"
  | Extracted jsval

datatype log_level = Warn | Error

type_synonym redis_store = "string \<rightharpoonup> (string \<times> nat)"

record worker_env =
  fileOutcome :: "nat \<Rightarrow> file_outcome"
  unlinkFails :: "nat \<Rightarrow> bool"
  redisSetError :: "string option"
  stringify :: "PreviewResult \<Rightarrow> string"

record job_state =
  allScheduleEvents :: "jsval list"
  termStartDate' :: "string option"
  termEndDate' :: "string option"
  filesProcessedSuccessfully :: nat
  fileProcessingErrors :: "ProcessingError list"
  processingWarnings' :: "ProcessingWarning list"
  tempFiles :: "string set"
  unlinkCalls :: "string list"
  logged :: "(log_level \<times> string) list"

datatype job_error =
    AllFilesFailed nat "ProcessingError list"
  | CombinedDataInvalid
  | RedisSaveFailed string

record job_result =
  message :: string
  finalEventCount :: nat
  warningCount :: nat
  errorCount :: nat

record job_world =
  filesOnDisk :: "string set"
  unlinked :: "string list"
  redis :: redis_store
  logs :: "(log_level \<times> string) list"

definition nthOpt :: "'a list \<Rightarrow> nat \<Rightarrow> 'a option" where
  \<comment> \<open>\<open>xs[i]\<close>: \<open>undefined\<close> out of range\<close>
  "nthOpt xs i = (if i < length xs then Some (xs ! i) else None)"

definition initialJobState :: "string set \<Rightarrow> job_state" where
  "initialJobState files =
     \<lparr>allScheduleEvents = [], termStartDate' = None, termEndDate' = None,
      filesProcessedSuccessfully = 0, fileProcessingErrors = [], processingWarnings' = [],
      tempFiles = files, unlinkCalls = [], logged = []\<rparr>"

definition invalidDateMessage :: "string \<Rightarrow> string" where
  "invalidDateMessage which =
     ''Term '' @ which @ '' date from AI has invalid format (YYYY-MM-DD expected), ignoring value.''"

definition captureTermDate ::
  "string \<Rightarrow> string \<Rightarrow> string option \<Rightarrow> jsval \<Rightarrow> string option
     \<Rightarrow> string option \<times> ProcessingWarning list \<times> (log_level \<times> string) list" where
  \<comment> \<open>one of the two blocks that capture a term date: the new value of the variable, the
      warnings pushed and the entries logged. \<open>which\<close> is \<open>start\<close> or \<open>end\<close>, \<open>field\<close> the
      name of the property.\<close>
  "captureTermDate which field originalFilename value current =
     (if \<not> truthyStr current \<and> truthy value \<and> zString value \<noteq> None then
        (if dateRegexTest (the (zString value)) then (zString value, [], [])
         else (current,
               [\<lparr>warnFilename = originalFilename, warnMessage = invalidDateMessage which,
                 warnField = Some field, warnValue = Some value\<rparr>],
               [(Warn, invalidDateMessage which)]))
      else (current, [], []))"

definition invalidResultMessage :: string where
  "invalidResultMessage = ''AI result format invalid (missing or invalid scheduleEvents array)''"

definition filterWarning :: string where
  "filterWarning = ''Filtering out invalid event from AI result.''"

definition usable :: "jsval \<Rightarrow> bool" where
  \<comment> \<open>\<open>aiResult && Array.isArray(aiResult.scheduleEvents)\<close>\<close>
  "usable aiResult = (truthy aiResult \<and> isArray (getProp aiResult ''scheduleEvents''))"

definition tryBlock :: "string option \<Rightarrow> jsval \<Rightarrow> job_state \<Rightarrow> job_state" where
  \<comment> \<open>the \<open>try\<close> block after the extraction has returned \<open>aiResult\<close>\<close>
  "tryBlock originalFilename aiResult st =
     (let st1 =
        (if usable aiResult then
           let candidates = arrayItems (getProp aiResult ''scheduleEvents'');
               validatedEventsFromFile = filter (\<lambda>event. scheduleEventSchema event \<noteq> None) candidates;
               dropped = filter (\<lambda>event. scheduleEventSchema event = None) candidates;
               (start, startWarnings, startLogs) =
                 captureTermDate ''start'' ''termStartDate'' originalFilename
                   (getProp aiResult ''termStartDate'') (termStartDate' st);
               (end, endWarnings, endLogs) =
                 captureTermDate ''end'' ''termEndDate'' originalFilename
                   (getProp aiResult ''termEndDate'') (termEndDate' st)
           in st\<lparr>allScheduleEvents := allScheduleEvents st @ validatedEventsFromFile,
                 termStartDate' := start,
                 termEndDate' := end,
                 processingWarnings' := processingWarnings' st @ startWarnings @ endWarnings,
                 logged := logged st @ map (\<lambda>event. (Warn, filterWarning)) dropped
                           @ startLogs @ endLogs\<rparr>
         else
           st\<lparr>fileProcessingErrors := fileProcessingErrors st @
                  [\<lparr>errFilename = originalFilename, errText = invalidResultMessage\<rparr>],
              logged := logged st @ [(Warn, invalidResultMessage)]\<rparr>)
      in st1\<lparr>filesProcessedSuccessfully := Suc (filesProcessedSuccessfully st1)\<rparr>)"

definition catchBlock :: "string option \<Rightarrow> string option \<Rightarrow> job_state \<Rightarrow> job_state" where
  \<comment> \<open>the \<open>catch\<close> block; the second argument is \<open>error.message\<close>\<close>
  "catchBlock originalFilename errorMessage st =
     st\<lparr>fileProcessingErrors := fileProcessingErrors st @
            [\<lparr>errFilename = originalFilename,
              errText = orElse errorMessage ''Unknown processing error''\<rparr>],
        logged := logged st @ [(Error, ''Error processing file.'')]\<rparr>"

definition finallyBlock :: "worker_env \<Rightarrow> nat \<Rightarrow> string \<Rightarrow> job_state \<Rightarrow> job_state" where
  \<comment> \<open>the \<open>finally\<close> block: \<open>fs.unlink(tempFilePath)\<close>, a failure of which is logged\<close>
  "finallyBlock env i tempFilePath st =
     (if unlinkFails env i then
        st\<lparr>unlinkCalls := unlinkCalls st @ [tempFilePath],
           logged := logged st @ [(Error, ''!!! CRITICAL: Failed to delete temporary file !!!'')]\<rparr>
      else
        st\<lparr>unlinkCalls := unlinkCalls st @ [tempFilePath],
           tempFiles := tempFiles st - {tempFilePath}\<rparr>)"

definition processFile :: "worker_env \<Rightarrow> AiJobData \<Rightarrow> job_state \<Rightarrow> nat \<Rightarrow> job_state" where
  \<comment> \<open>one iteration of the loop over the files; \<open>i\<close> is below the length of \<open>tempFilePaths\<close>\<close>
  "processFile env job st i =
     (let tempFilePath = tempFilePaths job ! i;
          originalFilename = nthOpt (originalFilenames job) i
      in finallyBlock env i tempFilePath
           (case fileOutcome env i of
              ReadFileThrows m \<Rightarrow> catchBlock originalFilename m st
            | ExtractThrows m \<Rightarrow> catchBlock originalFilename m st
            | Extracted aiResult \<Rightarrow> tryBlock originalFilename aiResult st))"

definition fileLoop :: "worker_env \<Rightarrow> AiJobData \<Rightarrow> nat \<Rightarrow> job_state \<Rightarrow> job_state" where
  \<comment> \<open>the first \<open>n\<close> iterations of \<open>for (let i = 0; i < tempFilePaths.length; i++)\<close>\<close>
  "fileLoop env job n st = foldl (processFile env job) st [0..<n]"

definition optStr :: "string option \<Rightarrow> jsval" where
  "optStr v = (case v of None \<Rightarrow> JNull | Some s \<Rightarrow> JStr s)"

definition combinedScheduleData :: "job_state \<Rightarrow> jsval" where
  "combinedScheduleData st =
     JObj [(''termStartDate'', optStr (termStartDate' st)),
           (''termEndDate'', optStr (termEndDate' st)),
           (''scheduleEvents'', JArr (allScheduleEvents st))]"

definition previewResultValid :: "PreviewResult \<Rightarrow> bool" where
  \<comment> \<open>\<open>previewResultSchema.parse\<close> on the assembled result: the schedule data is the output
      of its own schema, and of the diagnostics only a file name can have a wrong type\<close>
  "previewResultValid r = list_all (\<lambda>e. errFilename e \<noteq> None) (processingErrors r)"

definition worldOf :: "job_state \<Rightarrow> redis_store \<Rightarrow> (log_level \<times> string) list \<Rightarrow> job_world" where
  "worldOf st store moreLogs =
     \<lparr>filesOnDisk = tempFiles st, unlinked = unlinkCalls st, redis = store,
      logs = logged st @ moreLogs\<rparr>"

definition storePreview ::
  "worker_env \<Rightarrow> AiJobData \<Rightarrow> job_state \<Rightarrow> redis_store \<Rightarrow> ScheduleData
     \<Rightarrow> (job_error + job_result) \<times> job_world" where
  \<comment> \<open>the end of \<open>processAiJob\<close>, from \<open>previewResultData\<close> on: when the assembled result
      fails its schema it is logged and stored all the same\<close>
  "storePreview env job st store validatedScheduleData =
     (let previewResultData =
            \<lparr>scheduleData = validatedScheduleData,
             processingWarnings = processingWarnings' st,
             processingErrors = fileProcessingErrors st\<rparr>;
          schemaLogs =
            (if previewResultValid previewResultData then []
             else [(Error, ''!!! CRITICAL: Assembled PreviewResult failed schema validation !!!'')]);
          validatedPreviewResult = previewResultData;
          redisKey = ''preview:'' @ sessionId job
      in (case redisSetError env of
            Some m \<Rightarrow>
              (Inl (RedisSaveFailed m),
               worldOf st store
                 (schemaLogs @ [(Error, ''!!! Failed to store final preview data in Redis !!!'')]))
          | None \<Rightarrow>
              (Inr \<lparr>message = ''Processed '' @ showNat (filesProcessedSuccessfully st) @ ''/''
                               @ showNat (length (tempFilePaths job)) @ '' files.'',
                    finalEventCount = length (scheduleEvents (scheduleData validatedPreviewResult)),
                    warningCount = length (processingWarnings validatedPreviewResult),
                    errorCount = length (processingErrors validatedPreviewResult)\<rparr>,
               worldOf st
                 (store(redisKey \<mapsto> (stringify env validatedPreviewResult, 1800)))
                 schemaLogs)))"

definition processAiJob ::
  "worker_env \<Rightarrow> AiJobData \<Rightarrow> string set \<Rightarrow> redis_store \<Rightarrow> (job_error + job_result) \<times> job_world" where
  \<comment> \<open>the result (\<^term>\<open>Inl\<close> for a thrown \<open>Error\<close>) and the world the job leaves\<close>
  "processAiJob env job files store =
     (let st = fileLoop env job (length (tempFilePaths job)) (initialJobState files)
      in if filesProcessedSuccessfully st = 0 \<and> 0 < length (tempFilePaths job) then
           (Inl (AllFilesFailed (length (tempFilePaths job)) (fileProcessingErrors st)),
            worldOf st store [(Error, ''AI processing failed for all files in the job.'')])
         else
           (case scheduleDataSchema (combinedScheduleData st) of
              None \<Rightarrow>
                (Inl CombinedDataInvalid,
                 worldOf st store [(Error, ''Combined schedule data is invalid after processing'')])
            | Some validatedScheduleData \<Rightarrow> storePreview env job st store validatedScheduleData))"


section \<open>Preview route (\<open>routes/preview.ts\<close>)\<close>

text \<open>
  The handler of \<open>GET /api/preview\<close>. Its environment gives \<open>JSON.parse\<close> (\<^term>\<open>None\<close> where
  it throws), the clock, and whether the \<open>GET\<close> and the \<open>DEL\<close> of the store fail. The result is
  the reply, or the error of the store rethrown to the framework, with the store as the
  handler leaves it and whether the session was destroyed.
\<close>

record Session =
  sessionIdOf :: "string option"
  accessToken :: "string option"
  expiresAt :: int

record preview_env =
  jsonParse :: "string \<Rightarrow> jsval option"
  dateNow :: int
  redisGetFails :: bool
  redisDelFails :: bool

datatype reply_body =
    ErrorBody string string
  | PreviewBody PreviewResult

datatype handler_result =
    Reply nat reply_body
  | Rethrown

record handler_effect =
  storeAfter :: redis_store
  sessionDestroyed :: bool
  delCalls :: "string list"

definition readFailure :: handler_result where
  "readFailure = Reply 500 (ErrorBody ''Internal Server Error'' ''Failed to read preview data.'')"

definition getPreview ::
  "preview_env \<Rightarrow> Session option \<Rightarrow> redis_store \<Rightarrow> handler_result \<times> handler_effect" where
  "getPreview env session store =
     (if session = None \<or> \<not> truthyStr (sessionIdOf (the session))
         \<or> \<not> truthyStr (accessToken (the session)) \<or> expiresAt (the session) \<le> dateNow env
      then (Reply 401 (ErrorBody ''Unauthorized''
                        ''Invalid session or token expired. Please log in again.''),
            \<lparr>storeAfter = store, sessionDestroyed = (session \<noteq> None), delCalls = []\<rparr>)
      else
        let redisKey = ''preview:'' @ the (sessionIdOf (the session))
        in if redisGetFails env
           then (Rethrown, \<lparr>storeAfter = store, sessionDestroyed = False, delCalls = []\<rparr>)
           else
             let storedDataString = map_option fst (store redisKey)
             in if \<not> truthyStr storedDataString
                then (Reply 404 (ErrorBody ''Not Found''
                                  ''Preview data not found or expired. Please upload again.''),
                      \<lparr>storeAfter = store, sessionDestroyed = False, delCalls = []\<rparr>)
                else
                  (case Option.bind (jsonParse env (the storedDataString)) previewResultSchema of
                     None \<Rightarrow>
                       (readFailure,
                        \<lparr>storeAfter = (if redisDelFails env then store else store(redisKey := None)),
                         sessionDestroyed = False, delCalls = [redisKey]\<rparr>)
                   | Some parsedPreviewResult \<Rightarrow>
                       (Reply 200 (PreviewBody parsedPreviewResult),
                        \<lparr>storeAfter = store, sessionDestroyed = False, delCalls = []\<rparr>)))"


section \<open>Concrete inputs\<close>

definition exampleEnv :: cal_env where
  "exampleEnv =
     \<lparr>validTimeZone = (\<lambda>z. z = ''America/New_York''), localOffset = 0,
      zoneXXX = (\<lambda>z t. ''-04:00''), random = (\<lambda>k. 0)\<rparr>"

definition failureEntries ::
  "(nat \<Rightarrow> GoogleCalendarEvent \<Rightarrow> insert_outcome) \<Rightarrow> GoogleCalendarEvent list \<Rightarrow> nat
     \<Rightarrow> CreationError list" where
  \<comment> \<open>what the result is to record for the descriptor at index \<open>i\<close>: nothing when its
      insertion succeeds, else its summary (or a label made of its index when it has none),
      the message and the status code of the provider\<close>
  "failureEntries calendarInsert events i =
     (case calendarInsert i (events ! i) of
        Inserted \<Rightarrow> []
      | InsertFailed error \<Rightarrow>
          [\<lparr>errEventSummary = orElse (summary (events ! i)) (''Event '' @ showNat i),
            errError = orElse (responseErrorMessage error)
                         (orElse (thrownMessage error) ''Unknown error during event insertion''),
            errStatus = responseStatus error\<rparr>])"

definition exampleDescriptor :: "string \<Rightarrow> GoogleCalendarEvent" where
  "exampleDescriptor s =
     \<lparr>summary = Some s, eventLocation = None, description = [],
      eventStart = \<lparr>dateTime = [], timeZone = []\<rparr>, eventEnd = \<lparr>dateTime = [], timeZone = []\<rparr>,
      recurrence = [], remindersUseDefault = False, remindersOverrides = [], colorId = None\<rparr>"

definition exampleCalendar :: "nat \<Rightarrow> GoogleCalendarEvent \<Rightarrow> insert_outcome" where
  \<comment> \<open>a calendar that rejects the second insertion with a conflict\<close>
  "exampleCalendar i event =
     (if i = 1 then InsertFailed \<lparr>responseErrorMessage = Some ''Event conflict'',
                                  thrownMessage = Some ''API Error'', responseStatus = Some 409\<rparr>
      else Inserted)"

definition exampleEvent :: ScheduleEvent where
  "exampleEvent =
     \<lparr>courseCode = ''TEST 101'', courseName = Some ''Test Course'', sectionDetails = Some ''Lec 01'',
      days = [''Monday'', ''Wednesday''], startTime = ''09:00 AM'', endTime = ''10:30 AM'',
      location = Some ''Room 1''\<rparr>"

definition exampleSchedule :: ScheduleData where
  "exampleSchedule =
     \<lparr>termStartDate = Some ''2024-09-02'', termEndDate = Some ''2024-12-10'',
      scheduleEvents = [exampleEvent]\<rparr>"

definition berlinEnv :: cal_env where
  \<comment> \<open>a process whose local zone is one hour east of UTC\<close>
  "berlinEnv = exampleEnv\<lparr>localOffset := 60\<rparr>"

definition exampleDescriptorUntil :: "string \<Rightarrow> GoogleCalendarEvent" where
  \<comment> \<open>the descriptor of \<^term>\<open>exampleEvent\<close> with a given bound of its recurrence\<close>
  "exampleDescriptorUntil until =
     \<lparr>summary = Some ''TEST 101 (Lec 01) - Test Course'',
      eventLocation = Some ''Room 1'',
      description = ''Course: TEST 101'' @ [CHR 0x0A] @ ''Section: Lec 01'' @ [CHR 0x0A]
                    @ ''Name: Test Course'',
      eventStart = \<lparr>dateTime = ''2024-09-02T09:00:00-04:00'', timeZone = ''America/New_York''\<rparr>,
      eventEnd = \<lparr>dateTime = ''2024-09-02T10:30:00-04:00'', timeZone = ''America/New_York''\<rparr>,
      recurrence = [''RRULE:FREQ=WEEKLY;BYDAY=MO,WE;UNTIL='' @ until],
      remindersUseDefault = False,
      remindersOverrides = [(''popup'', 15)],
      colorId = Some ''1''\<rparr>"

definition noteCode :: "string list \<Rightarrow> string \<Rightarrow> string list" where
  \<comment> \<open>the course codes met so far, without repetition and without the empty code\<close>
  "noteCode seen c = (if c = [] \<or> c \<in> set seen then seen else seen @ [c])"

definition distinctCodes :: "string list \<Rightarrow> string list" where
  \<comment> \<open>the distinct non-empty codes of a list, in the order of their first occurrence\<close>
  "distinctCodes codes = foldl noteCode [] codes"

definition emittedCodes ::
  "ScheduleEvent list \<Rightarrow> (skip_reason + GoogleCalendarEvent) list \<Rightarrow> string list" where
  \<comment> \<open>the course codes of the events that were not skipped, in order\<close>
  "emittedCodes events outcomes = [courseCode e. (e, Inr g) \<leftarrow> zip events outcomes]"

fun colorsAfter ::
  "cal_env \<Rightarrow> string \<Rightarrow> jsDate \<Rightarrow> jsDate \<Rightarrow> string \<Rightarrow> ScheduleEvent list \<Rightarrow> color_state
     \<Rightarrow> color_state" where
  \<comment> \<open>the colour map, the free colours and the counters when \<open>forEach\<close> has ended\<close>
  "colorsAfter env tz termStart untilDate until [] st = st"
| "colorsAfter env tz termStart untilDate until (event # rest) st =
     colorsAfter env tz termStart untilDate until rest
       (snd (formatEvent env tz termStart untilDate until event st))"

definition colorInv :: "color_state \<Rightarrow> string list \<Rightarrow> bool" where
  \<comment> \<open>the colour state when the distinct codes coloured so far are \<open>cs\<close>, in order\<close>
  "colorInv st cs =
     (dom (courseColorMap st) = set cs \<and> distinct cs \<and> [] \<notin> set cs
      \<and> distinct (map (\<lambda>c. the (courseColorMap st c)) (take 11 cs) @ availableColors st)
      \<and> set (map (\<lambda>c. the (courseColorMap st c)) (take 11 cs)) \<union> set (availableColors st)
          = set GOOGLE_COLOR_IDS
      \<and> length (availableColors st) = 11 - length cs
      \<and> fallbackColorIndex st = length cs - 11
      \<and> (\<forall>k. 11 + k < length cs \<longrightarrow>
            courseColorMap st (cs ! (11 + k)) = Some (GOOGLE_COLOR_IDS ! (k mod 11))))"

definition colorSchedule :: ScheduleData where
  \<comment> \<open>two events of one course around an event of another\<close>
  "colorSchedule =
     exampleSchedule\<lparr>scheduleEvents :=
       [exampleEvent\<lparr>courseCode := ''CS101'', days := [''Monday'']\<rparr>,
        exampleEvent\<lparr>courseCode := ''MA201'', days := [''Tuesday'']\<rparr>,
        exampleEvent\<lparr>courseCode := ''CS101'', sectionDetails := Some ''Lab'',
                      days := [''Wednesday'']\<rparr>]\<rparr>"

definition fileThrows :: "worker_env \<Rightarrow> nat \<Rightarrow> bool" where
  \<comment> \<open>reading the file or extracting from it throws\<close>
  "fileThrows env i = (case fileOutcome env i of Extracted _ \<Rightarrow> False | _ \<Rightarrow> True)"

definition fileUsable :: "worker_env \<Rightarrow> nat \<Rightarrow> bool" where
  "fileUsable env i = (case fileOutcome env i of Extracted v \<Rightarrow> usable v | _ \<Rightarrow> False)"

definition validatedEventsOf :: "worker_env \<Rightarrow> nat \<Rightarrow> jsval list" where
  \<comment> \<open>the candidate events of file \<open>i\<close> that pass \<open>scheduleEventSchema\<close>\<close>
  "validatedEventsOf env i =
     (case fileOutcome env i of
        Extracted v \<Rightarrow>
          if usable v
          then filter (\<lambda>event. scheduleEventSchema event \<noteq> None) (arrayItems (getProp v ''scheduleEvents''))
          else []
      | _ \<Rightarrow> [])"

definition errorsOf :: "worker_env \<Rightarrow> AiJobData \<Rightarrow> nat \<Rightarrow> ProcessingError list" where
  \<comment> \<open>the processing error of file \<open>i\<close>, if it has one\<close>
  "errorsOf env job i =
     (case fileOutcome env i of
        ReadFileThrows m \<Rightarrow>
          [\<lparr>errFilename = nthOpt (originalFilenames job) i,
            errText = orElse m ''Unknown processing error''\<rparr>]
      | ExtractThrows m \<Rightarrow>
          [\<lparr>errFilename = nthOpt (originalFilenames job) i,
            errText = orElse m ''Unknown processing error''\<rparr>]
      | Extracted v \<Rightarrow>
          if usable v then []
          else [\<lparr>errFilename = nthOpt (originalFilenames job) i, errText = invalidResultMessage\<rparr>])"

definition suppliedDate :: "string \<Rightarrow> worker_env \<Rightarrow> nat \<Rightarrow> string option" where
  \<comment> \<open>the well-formed date that file \<open>i\<close> supplies for a field, if its result is usable\<close>
  "suppliedDate field env i =
     (case fileOutcome env i of
        Extracted v \<Rightarrow> if usable v then dateStringSchema (getProp v field) else None
      | _ \<Rightarrow> None)"

fun firstSome :: "'a option list \<Rightarrow> 'a option" where
  "firstSome [] = None"
| "firstSome (None # xs) = firstSome xs"
| "firstSome (Some x # xs) = Some x"

definition malformedDate :: "jsval \<Rightarrow> bool" where
  \<comment> \<open>a non-empty string that is not of the form \<open>YYYY-MM-DD\<close>\<close>
  "malformedDate v = (case v of JStr s \<Rightarrow> s \<noteq> [] \<and> \<not> dateRegexTest s | _ \<Rightarrow> False)"

definition dateWarning ::
  "string \<Rightarrow> string \<Rightarrow> worker_env \<Rightarrow> AiJobData \<Rightarrow> nat \<Rightarrow> ProcessingWarning list" where
  \<comment> \<open>the warning of file \<open>i\<close> for a field: it needs a usable result, a malformed value, and
      no earlier usable file with a well-formed value for the field\<close>
  "dateWarning which field env job i =
     (case fileOutcome env i of
        Extracted v \<Rightarrow>
          if usable v \<and> firstSome (map (suppliedDate field env) [0..<i]) = None
             \<and> malformedDate (getProp v field)
          then [\<lparr>warnFilename = nthOpt (originalFilenames job) i,
                 warnMessage = invalidDateMessage which,
                 warnField = Some field, warnValue = Some (getProp v field)\<rparr>]
          else []
      | _ \<Rightarrow> [])"

definition expectedPreview :: "worker_env \<Rightarrow> AiJobData \<Rightarrow> PreviewResult" where
  \<comment> \<open>the merge of the files of a job, read off the results of the files one by one\<close>
  "expectedPreview env job =
     (let n = length (tempFilePaths job)
      in \<lparr>scheduleData =
             \<lparr>termStartDate = firstSome (map (suppliedDate ''termStartDate'' env) [0..<n]),
              termEndDate = firstSome (map (suppliedDate ''termEndDate'' env) [0..<n]),
              scheduleEvents =
                map (\<lambda>event. the (scheduleEventSchema event))
                  (concat (map (validatedEventsOf env) [0..<n]))\<rparr>,
           processingWarnings =
             concat (map (\<lambda>i. dateWarning ''start'' ''termStartDate'' env job i
                               @ dateWarning ''end'' ''termEndDate'' env job i) [0..<n]),
           processingErrors = concat (map (errorsOf env job) [0..<n])\<rparr>)"
definition goodEventJson :: "string \<Rightarrow> jsval" where
  \<comment> \<open>a candidate event that passes the schema\<close>
  "goodEventJson code =
     JObj [(''courseCode'', JStr code), (''courseName'', JNull), (''sectionDetails'', JNull),
           (''days'', JArr [JStr ''Mon'']), (''startTime'', JStr ''10:00 AM''),
           (''endTime'', JStr ''11:00 AM''), (''location'', JNull)]"

definition goodEvent :: "string \<Rightarrow> ScheduleEvent" where
  "goodEvent code =
     \<lparr>courseCode = code, courseName = None, sectionDetails = None, days = [''Mon''],
      startTime = ''10:00 AM'', endTime = ''11:00 AM'', location = None\<rparr>"

definition noCodeEventJson :: jsval where
  \<comment> \<open>a candidate event with days and times, and no course code\<close>
  "noCodeEventJson =
     JObj [(''days'', JArr [JStr ''Mon'']), (''startTime'', JStr ''9:00 AM''),
           (''endTime'', JStr ''10:00 AM'')]"

definition threeFileJob :: AiJobData where
  "threeFileJob =
     \<lparr>sessionId = ''s1'', tempFilePaths = [''/tmp/a'', ''/tmp/b'', ''/tmp/c''],
      mimeTypes = [''image/png'', ''image/png'', ''image/png''],
      originalFilenames = [''a.png'', ''b.png'', ''c.png'']\<rparr>"

definition twoFileJob :: AiJobData where
  "twoFileJob =
     \<lparr>sessionId = ''s1'', tempFilePaths = [''/tmp/a'', ''/tmp/b''],
      mimeTypes = [''image/png'', ''image/png''], originalFilenames = [''a.png'', ''b.png'']\<rparr>"

definition oneFileJob :: AiJobData where
  "oneFileJob =
     \<lparr>sessionId = ''s1'', tempFilePaths = [''/tmp/a''], mimeTypes = [''image/png''],
      originalFilenames = [''a.png'']\<rparr>"

definition baseEnv :: worker_env where
  \<comment> \<open>every file yields one valid event and both term dates; nothing fails\<close>
  "baseEnv =
     \<lparr>fileOutcome = (\<lambda>i. Extracted (JObj [(''termStartDate'', JStr ''2024-01-10''),
                                            (''termEndDate'', JStr ''2024-05-15''),
                                            (''scheduleEvents'', JArr [goodEventJson ''CS101''])])),
      unlinkFails = (\<lambda>i. False), redisSetError = None, stringify = (\<lambda>r. ''{}'')\<rparr>"

definition secondThrowsEnv :: worker_env where
  \<comment> \<open>as \<^term>\<open>baseEnv\<close>, but the extraction of the second file throws\<close>
  "secondThrowsEnv =
     baseEnv\<lparr>fileOutcome :=
       (\<lambda>i. if i = 1 then ExtractThrows (Some ''AI processing failed'') else fileOutcome baseEnv i)\<rparr>"

definition allThrowEnv :: worker_env where
  \<comment> \<open>no file can be read\<close>
  "allThrowEnv = baseEnv\<lparr>fileOutcome := (\<lambda>i. ReadFileThrows (Some ''Cannot read file''))\<rparr>"

definition emptyObjectEnv :: worker_env where
  \<comment> \<open>every extraction returns the object \<open>{}\<close>\<close>
  "emptyObjectEnv = baseEnv\<lparr>fileOutcome := (\<lambda>i. Extracted (JObj []))\<rparr>"

definition datesEnv :: worker_env where
  \<comment> \<open>the first file has a malformed start date and a good end date, the second file a
      good start date and another end date\<close>
  "datesEnv =
     baseEnv\<lparr>fileOutcome :=
       (\<lambda>i. if i = 0
             then Extracted (JObj [(''termStartDate'', JStr ''bad-date''),
                                   (''termEndDate'', JStr ''2024-12-31''),
                                   (''scheduleEvents'', JArr [])])
             else Extracted (JObj [(''termStartDate'', JStr ''2024-09-01''),
                                   (''termEndDate'', JStr ''2025-01-15''),
                                   (''scheduleEvents'', JArr [])]))\<rparr>"

definition ignoredDatesEnv :: worker_env where
  \<comment> \<open>the first file has a good start date and no array of events, the second file an
      empty string for the start date\<close>
  "ignoredDatesEnv =
     baseEnv\<lparr>fileOutcome :=
       (\<lambda>i. if i = 0
             then Extracted (JObj [(''termStartDate'', JStr ''2024-01-01'')])
             else Extracted (JObj [(''termStartDate'', JStr ''''), (''scheduleEvents'', JArr [])]))\<rparr>"

definition isString :: "jsval \<Rightarrow> bool" where
  "isString v = (case v of JStr _ \<Rightarrow> True | _ \<Rightarrow> False)"

definition isStringOrNull :: "jsval \<Rightarrow> bool" where
  "isStringOrNull v = (case v of JStr _ \<Rightarrow> True | JNull \<Rightarrow> True | _ \<Rightarrow> False)"

definition isTimeString :: "jsval \<Rightarrow> bool" where
  \<comment> \<open>a string in which the time pattern has a match\<close>
  "isTimeString v = (case v of JStr s \<Rightarrow> timeRegexTest s | _ \<Rightarrow> False)"

definition passesEventSchema :: "jsval \<Rightarrow> bool" where
  \<comment> \<open>what \<open>scheduleEventSchema\<close> asks of a candidate event, property by property\<close>
  "passesEventSchema e =
     (isObject e
      \<and> isString (getProp e ''courseCode'')
      \<and> isStringOrNull (getProp e ''courseName'')
      \<and> isStringOrNull (getProp e ''sectionDetails'')
      \<and> (case getProp e ''days'' of JArr ds \<Rightarrow> ds \<noteq> [] \<and> list_all isString ds | _ \<Rightarrow> False)
      \<and> isTimeString (getProp e ''startTime'')
      \<and> isTimeString (getProp e ''endTime'')
      \<and> isStringOrNull (getProp e ''location''))"

definition exampleSession :: Session where
  "exampleSession = \<lparr>sessionIdOf = Some ''s1'', accessToken = Some ''token'', expiresAt = 2000\<rparr>"

definition examplePreviewEnv :: preview_env where
  \<comment> \<open>a parser that knows the text \<open>{}\<close> only; the store answers every command\<close>
  "examplePreviewEnv =
     \<lparr>jsonParse = (\<lambda>s. if s = ''{}'' then Some (JObj []) else None), dateNow = 1000,
      redisGetFails = False, redisDelFails = False\<rparr>"

section \<open>First occurrence of an event\<close>

lemma indexOf_bounds: "- 1 \<le> indexOf xs x \<and> indexOf xs x < int (length xs)"
proof (cases "x \<in> set xs")
  case True
  let ?t = "takeWhile (\<lambda>y. y \<noteq> x) xs"
  have ne: "?t \<noteq> xs" using True by (simp add: takeWhile_eq_all_conv)
  have le: "length ?t \<le> length xs" by (rule length_takeWhile_le)
  have "length ?t \<noteq> length xs"
  proof
    assume "length ?t = length xs"
    then have "take (length ?t) xs = xs" by simp
    then show False using ne takeWhile_eq_take [of "\<lambda>y. y \<noteq> x" xs] by simp
  qed
  with le have "length ?t < length xs" by simp
  then show ?thesis using True by (simp add: indexOf_def)
next
  case False
  then show ?thesis by (simp add: indexOf_def)
qed

lemma dayDiff_range:
  assumes "0 \<le> s" "s \<le> 6"
  shows "0 \<le> dayDiff s d \<and> dayDiff s d \<le> 6"
proof -
  have "length (map fst dayNameToRRULE) = 7" by (simp add: dayNameToRRULE_def)
  with indexOf_bounds [of "map fst dayNameToRRULE" d]
  have "- 1 \<le> indexOf (map fst dayNameToRRULE) d" "indexOf (map fst dayNameToRRULE) d \<le> 6"
    by auto
  with assms show ?thesis by (auto simp: dayDiff_def Let_def)
qed

lemma daysToAddLoop_le: "daysToAddLoop s ds acc \<le> acc"
proof (induction ds arbitrary: acc)
  case Nil
  show ?case by simp
next
  case (Cons d ds)
  have "daysToAddLoop s ds (min acc (dayDiff s d)) \<le> min acc (dayDiff s d)" by (rule Cons.IH)
  then show ?case by simp
qed

lemma daysToAddLoop_nonneg:
  assumes "0 \<le> s" "s \<le> 6"
  shows "0 \<le> acc \<Longrightarrow> 0 \<le> daysToAddLoop s ds acc"
proof (induction ds arbitrary: acc)
  case Nil
  then show ?case by simp
next
  case (Cons d ds)
  have "0 \<le> min acc (dayDiff s d)" using Cons.prems dayDiff_range [OF assms, of d] by simp
  then have "0 \<le> daysToAddLoop s ds (min acc (dayDiff s d))" by (rule Cons.IH)
  then show ?case by simp
qed

lemma daysToAddLoop_Cons_le6:
  assumes "0 \<le> s" "s \<le> 6"
  shows "daysToAddLoop s (d # ds) acc \<le> 6"
proof -
  have "daysToAddLoop s ds (min acc (dayDiff s d)) \<le> min acc (dayDiff s d)"
    by (rule daysToAddLoop_le)
  with dayDiff_range [OF assms, of d] show ?thesis by simp
qed

lemma getDay_range: "0 \<le> getDay off t \<and> getDay off t \<le> 6"
  by (simp add: getDay_def)

lemma formatEvent_no_day_found:
  "fst (formatEvent env tz termStart untilDate until event st) = Inl NoFirstOccurrenceDay
   \<Longrightarrow> filter (\<lambda>d. rruleLookup d \<noteq> None) (map toLowerCase (days event)) \<noteq> []
     \<and> daysToAddLoop (getDay (localOffset env) termStart)
         (filter (\<lambda>d. rruleLookup d \<noteq> None) (map toLowerCase (days event))) 7 = 7"
  unfolding formatEvent_def Let_def
  by (simp split: if_splits prod.splits)

text \<open>
  C10. The error branch of \<open>formatEventsForGoogle\<close> that logs "Could not determine first
  occurrence day" and skips the event is never taken, whatever the event, the term start
  and the state of the colours; and for every non-empty list of day names, known or not,
  the loop over \<open>daysOfWeek\<close> started at 7 ends with a number of days between 0 and 6, so
  the first occurrence lies within six days of the term start.
\<close>

theorem first_occurrence_day_always_found:
  "fst (formatEvent env tz termStart untilDate until event st) \<noteq> Inl NoFirstOccurrenceDay
   \<and> (daysOfWeek \<noteq> [] \<longrightarrow>
        0 \<le> daysToAddLoop (getDay (localOffset env) termStart) daysOfWeek 7
        \<and> daysToAddLoop (getDay (localOffset env) termStart) daysOfWeek 7 \<le> 6)"
proof
  let ?s = "getDay (localOffset env) termStart"
  have s: "0 \<le> ?s" "?s \<le> 6" using getDay_range by auto
  have le6: "ds \<noteq> [] \<Longrightarrow> daysToAddLoop ?s ds 7 \<le> 6" for ds
    using daysToAddLoop_Cons_le6 [OF s] by (cases ds) auto
  show "fst (formatEvent env tz termStart untilDate until event st) \<noteq> Inl NoFirstOccurrenceDay"
  proof
    assume "fst (formatEvent env tz termStart untilDate until event st) = Inl NoFirstOccurrenceDay"
    from formatEvent_no_day_found [OF this] le6 show False by fastforce
  qed
  show "daysOfWeek \<noteq> [] \<longrightarrow> 0 \<le> daysToAddLoop ?s daysOfWeek 7 \<and> daysToAddLoop ?s daysOfWeek 7 \<le> 6"
    using le6 daysToAddLoop_nonneg [OF s, of 7 daysOfWeek] by simp
qed

theorem first_occurrence_day_always_found_witness:
  "[''wednesday'', ''monday''] \<noteq> []
   \<and> daysToAddLoop (getDay (localOffset exampleEnv) 28753920) [''wednesday'', ''monday''] 7 = 0
   \<and> daysToAddLoop (getDay (localOffset exampleEnv) 28753920) [''wednesday'', ''monday''] 7 \<le> 6"
proof -
  have "daysToAddLoop (getDay (localOffset exampleEnv) 28753920) [''wednesday'', ''monday''] 7 = 0"
    by code_simp
  then show ?thesis
    using first_occurrence_day_always_found
            [of exampleEnv _ 28753920 _ _ _ _ "[''wednesday'', ''monday'']"]
    by simp
qed

section \<open>Submission of the events\<close>

lemma orElse_nonempty: "d \<noteq> [] \<Longrightarrow> orElse v d \<noteq> []"
  by (simp add: orElse_def split: option.splits)

lemma orElse_Some_nonempty: "s \<noteq> [] \<Longrightarrow> orElse (Some s) d = s"
  by (simp add: orElse_def)

lemma orElse_idem: "orElse v (orElse v d) = orElse v d"
  by (simp add: orElse_def split: option.splits)

lemma collect_step:
  assumes "k < length events"
  shows "collectResults events (insertTask api k (events ! k) # rest) k acc =
         collectResults events rest (Suc k)
           (case api k (events ! k) of
              Inserted \<Rightarrow> acc\<lparr>successCount := Suc (successCount acc)\<rparr>
            | InsertFailed e \<Rightarrow> acc\<lparr>errors := errors acc @ failureEntries api events k\<rparr>)"
proof (cases "api k (events ! k)")
  case Inserted
  then show ?thesis by (simp add: insertTask_def)
next
  case (InsertFailed e)
  have ne: "orElse (responseErrorMessage e)
              (orElse (thrownMessage e) ''Unknown error during event insertion'') \<noteq> []"
    by (intro orElse_nonempty) simp
  show ?thesis
    using InsertFailed assms
    by (simp add: insertTask_def failureEntries_def summaryAt_def orElse_idem
          orElse_Some_nonempty [OF ne])
qed

lemma collect_all:
  "drop k events = evs \<Longrightarrow>
   successCount (collectResults events (insertPromises api k evs) k acc)
     = successCount acc + length (filter (\<lambda>i. api i (events ! i) = Inserted) [k..<length events])
   \<and> errors (collectResults events (insertPromises api k evs) k acc)
     = errors acc @ concat (map (failureEntries api events) [k..<length events])"
proof (induction evs arbitrary: k acc)
  case Nil
  then have "length events \<le> k" by simp
  then show ?case by simp
next
  case (Cons e rest)
  from Cons.prems have k: "k < length events"
    by (metis drop_all list.distinct(1) not_le)
  from Cons.prems k have e: "events ! k = e" and rest: "drop (Suc k) events = rest"
    by (simp_all add: Cons_nth_drop_Suc [symmetric])
  have upt: "[k..<length events] = k # [Suc k..<length events]"
    using k by (simp add: upt_conv_Cons)
  let ?acc' = "(case api k (events ! k) of
              Inserted \<Rightarrow> acc\<lparr>successCount := Suc (successCount acc)\<rparr>
            | InsertFailed e \<Rightarrow> acc\<lparr>errors := errors acc @ failureEntries api events k\<rparr>)"
  have step: "collectResults events (insertPromises api k (e # rest)) k acc
        = collectResults events (insertPromises api (Suc k) rest) (Suc k) ?acc'"
    using collect_step [OF k, of api "insertPromises api (Suc k) rest" acc] e by simp
  show ?case
    unfolding step upt
    using Cons.IH [OF rest, of ?acc']
    by (cases "api k (events ! k)") (simp_all add: failureEntries_def)
qed

lemma failures_and_successes:
  "length (concat (map (failureEntries api events) is))
   + length (filter (\<lambda>i. api i (events ! i) = Inserted) is) = length is"
  by (induction "is") (auto simp: failureEntries_def split: insert_outcome.splits)

text \<open>
  C3. When the concurrency setting is a positive integer (5 when the variable is not set),
  \<open>createCalendarEvents\<close> returns a result for every batch and every behaviour of the calendar
  API, with \<open>successCount + errors.length\<close> equal to the number of descriptors: the
  descriptor at each index is submitted and counted once, either in \<open>successCount\<close> or by one
  entry of \<open>errors\<close>, whatever happened to the descriptors before it. The entry of a failed
  descriptor carries its summary (the label \<open>Event i\<close> when it has none), the error
  message of the provider with its two fallbacks, and the status code of the provider when
  the rejection has one.
\<close>

theorem submission_accounts_for_every_descriptor:
  assumes "parseIntJS (orElse concurrencyVar ''5'') = Some n" and "1 \<le> n"
  shows "\<exists>r. createCalendarEvents concurrencyVar calendarInsert events = Inr r
           \<and> successCount r + length (errors r) = length events
           \<and> successCount r
               = length (filter (\<lambda>i. calendarInsert i (events ! i) = Inserted) [0..<length events])
           \<and> errors r = concat (map (failureEntries calendarInsert events) [0..<length events])"
proof -
  let ?r = "collectResults events (insertPromises calendarInsert 0 events) 0
              \<lparr>successCount = 0, errors = []\<rparr>"
  have run: "createCalendarEvents concurrencyVar calendarInsert events = Inr ?r"
    using assms by (simp add: createCalendarEvents_def)
  have all: "successCount ?r
               = length (filter (\<lambda>i. calendarInsert i (events ! i) = Inserted) [0..<length events])"
    "errors ?r = concat (map (failureEntries calendarInsert events) [0..<length events])"
    using collect_all [of 0 events events calendarInsert "\<lparr>successCount = 0, errors = []\<rparr>"]
    by simp_all
  have "successCount ?r + length (errors ?r) = length events"
    using failures_and_successes [of calendarInsert events "[0..<length events]"] all by simp
  with run all show ?thesis by blast
qed

theorem submission_accounts_for_every_descriptor_witness:
  "parseIntJS (orElse None ''5'') = Some 5 \<and> (1::int) \<le> 5
   \<and> createCalendarEvents None exampleCalendar [exampleDescriptor ''Event 1'', exampleDescriptor ''Event 2'']
       = Inr \<lparr>successCount = 1,
              errors = [\<lparr>errEventSummary = ''Event 2'', errError = ''Event conflict'',
                         errStatus = Some 409\<rparr>]\<rparr>"
proof -
  have c: "parseIntJS (orElse None ''5'') = Some 5" by code_simp
  have v: "createCalendarEvents None exampleCalendar [exampleDescriptor ''Event 1'', exampleDescriptor ''Event 2'']
       = Inr \<lparr>successCount = 1,
              errors = [\<lparr>errEventSummary = ''Event 2'', errError = ''Event conflict'',
                         errStatus = Some 409\<rparr>]\<rparr>"
    by code_simp
  from submission_accounts_for_every_descriptor
         [OF c, of exampleCalendar "[exampleDescriptor ''Event 1'', exampleDescriptor ''Event 2'']"]
  obtain r where
    "createCalendarEvents None exampleCalendar [exampleDescriptor ''Event 1'', exampleDescriptor ''Event 2'']
       = Inr r"
    "successCount r + length (errors r) = 2"
    by auto
  with c v show ?thesis by simp
qed

section \<open>The bound of the recurrence\<close>

lemma parse_20241210: "newDateLocalMidnight off ''2024-12-10'' = Some (20067 * 1440 - off)"
proof -
  have "newDateLocalMidnight 0 ''2024-12-10'' = Some (20067 * 1440)" by code_simp
  then show ?thesis by (simp add: newDateLocalMidnight_def Let_def split: if_splits)
qed

text \<open>
  The bound printed for a term that ends on 2024-12-10 depends on the local zone of the
  process: the day after the term end at or west of UTC, the last day of the term itself
  east of UTC.
\<close>

lemma until_bound_by_offset:
  assumes "- 1440 < off" and "off \<le> 1440"
  shows "map_option (\<lambda>t. isoDateCompact (addDays t 1)) (newDateLocalMidnight off ''2024-12-10'')
         = Some (if off \<le> 0 then ''20241211'' else ''20241210'')"
proof (cases "off \<le> 0")
  case True
  with assms have "(20068 * 1440 - off) div 1440 = 20068" by simp
  moreover have "isoDateCompact (20068 * 1440) = ''20241211''" by code_simp
  ultimately have "isoDateCompact (20068 * 1440 - off) = ''20241211''"
    by (simp add: isoDateCompact_def)
  then show ?thesis using True by (simp add: parse_20241210 addDays_def)
next
  case False
  with assms have "(20068 * 1440 - off) div 1440 = 20067" by simp
  moreover have "isoDateCompact (20067 * 1440) = ''20241210''" by code_simp
  ultimately have "isoDateCompact (20068 * 1440 - off) = ''20241210''"
    by (simp add: isoDateCompact_def)
  then show ?thesis using False by (simp add: parse_20241210 addDays_def)
qed

lemma recurrence_until_at_utc:
  "formatEventsForGoogle exampleEnv exampleSchedule ''America/New_York''
     = Inr [exampleDescriptorUntil ''20241211T000000Z'']"
  by code_simp

text \<open>
  C4. For the term 2024-09-02 to 2024-12-10 and the event on Monday and Wednesday from
  09:00 AM to 10:30 AM, in a process whose local zone is one hour east of UTC, the
  descriptor starts on 2024-09-02 at 09:00 local time, but the bound of its recurrence is
  \<open>20241210T000000Z\<close>, the term end itself, not \<open>20241211T000000Z\<close>: the bound is the UTC
  date of the local midnight after the term end.
\<close>

theorem recurrence_until_east_of_utc:
  "formatEventsForGoogle berlinEnv exampleSchedule ''America/New_York''
     = Inr [exampleDescriptorUntil ''20241210T000000Z'']"
  by code_simp

section \<open>Colours of the courses\<close>

lemma palette_facts: "length GOOGLE_COLOR_IDS = 11" "distinct GOOGLE_COLOR_IDS"
  by (simp_all add: GOOGLE_COLOR_IDS_def)

lemma remove_nth_distinct:
  assumes "i < length xs" and "distinct xs"
  shows "distinct (take i xs @ drop (Suc i) xs)"
    and "set (take i xs @ drop (Suc i) xs) = set xs - {xs ! i}"
    and "length (take i xs @ drop (Suc i) xs) = length xs - 1"
proof -
  have xs: "xs = take i xs @ xs ! i # drop (Suc i) xs"
    using assms(1) by (rule id_take_nth_drop)
  have d: "distinct (take i xs @ xs ! i # drop (Suc i) xs)"
    using assms(2) xs by simp
  from d show "distinct (take i xs @ drop (Suc i) xs)" by auto
  have "set xs = set (take i xs @ xs ! i # drop (Suc i) xs)" using xs by simp
  with d show "set (take i xs @ drop (Suc i) xs) = set xs - {xs ! i}" by auto
  show "length (take i xs @ drop (Suc i) xs) = length xs - 1"
    using assms(1) by simp
qed

lemma colorInv_initial: "colorInv initialColors []"
  by (simp add: colorInv_def initialColors_def palette_facts)

lemma assignColor_empty: "assignColor rnd [] st = (None, st)"
  by (simp add: assignColor_def)

lemma assignColor_known:
  "c \<noteq> [] \<Longrightarrow> courseColorMap st c = Some a \<Longrightarrow> assignColor rnd c st = (Some a, st)"
  by (simp add: assignColor_def)

lemma assignColor_draw:
  assumes "c \<noteq> []" "courseColorMap st c = None" "availableColors st \<noteq> []"
  shows "assignColor rnd c st =
     (Some (availableColors st ! (rnd (randomCalls st) mod length (availableColors st))),
      st\<lparr>courseColorMap := (courseColorMap st)
            (c \<mapsto> availableColors st ! (rnd (randomCalls st) mod length (availableColors st))),
         availableColors :=
           take (rnd (randomCalls st) mod length (availableColors st)) (availableColors st)
           @ drop (Suc (rnd (randomCalls st) mod length (availableColors st))) (availableColors st),
         randomCalls := Suc (randomCalls st)\<rparr>)"
  using assms by (simp add: assignColor_def Let_def)

lemma assignColor_cycle:
  assumes "c \<noteq> []" "courseColorMap st c = None" "availableColors st = []"
  shows "assignColor rnd c st =
     (Some (GOOGLE_COLOR_IDS ! (fallbackColorIndex st mod 11)),
      st\<lparr>courseColorMap := (courseColorMap st)
            (c \<mapsto> GOOGLE_COLOR_IDS ! (fallbackColorIndex st mod 11)),
         fallbackColorIndex := Suc (fallbackColorIndex st)\<rparr>)"
  using assms by (simp add: assignColor_def Let_def palette_facts)

lemma assignColor_inv:
  assumes inv: "colorInv st cs"
  shows "colorInv (snd (assignColor rnd c st)) (noteCode cs c)
       \<and> courseColorMap st \<subseteq>\<^sub>m courseColorMap (snd (assignColor rnd c st))
       \<and> fst (assignColor rnd c st)
           = (if c = [] then None else courseColorMap (snd (assignColor rnd c st)) c)
       \<and> (c \<noteq> [] \<longrightarrow> courseColorMap (snd (assignColor rnd c st)) c \<noteq> None)"
proof -
  let ?m = "courseColorMap st"
  let ?av = "availableColors st"
  from inv have dom: "dom ?m = set cs" and dcs: "distinct cs" and ne: "[] \<notin> set cs"
    and dist: "distinct (map (\<lambda>c. the (?m c)) (take 11 cs) @ ?av)"
    and un: "set (map (\<lambda>c. the (?m c)) (take 11 cs)) \<union> set ?av = set GOOGLE_COLOR_IDS"
    and len: "length ?av = 11 - length cs"
    and fb: "fallbackColorIndex st = length cs - 11"
    and cyc: "\<forall>k. 11 + k < length cs \<longrightarrow> ?m (cs ! (11 + k)) = Some (GOOGLE_COLOR_IDS ! (k mod 11))"
    by (simp_all add: colorInv_def)
  consider (empty) "c = []"
    | (known) a where "c \<noteq> []" "?m c = Some a"
    | (draw) "c \<noteq> []" "?m c = None" "?av \<noteq> []"
    | (cycle) "c \<noteq> []" "?m c = None" "?av = []"
    by (cases "?m c") auto
  then show ?thesis
  proof cases
    case empty
    then show ?thesis using inv by (simp add: assignColor_empty noteCode_def)
  next
    case known
    then have "c \<in> set cs" using dom by auto
    then show ?thesis using known inv by (simp add: assignColor_known noteCode_def)
  next
    case draw
    let ?i = "rnd (randomCalls st) mod length ?av"
    let ?a = "?av ! ?i"
    let ?av' = "take ?i ?av @ drop (Suc ?i) ?av"
    let ?m' = "?m(c \<mapsto> ?a)"
    let ?st' = "st\<lparr>courseColorMap := ?m', availableColors := ?av', randomCalls := Suc (randomCalls st)\<rparr>"
    have res: "assignColor rnd c st = (Some ?a, ?st')" using draw by (rule assignColor_draw)
    have cnot: "c \<notin> set cs" using draw(2) dom by auto
    then have nc: "noteCode cs c = cs @ [c]" using draw(1) by (simp add: noteCode_def)
    have i: "?i < length ?av" using draw(3) by simp
    have dav: "distinct ?av" using dist by simp
    have short: "length cs < 11" using len draw(3) by (cases "length cs < 11") auto
    have av': "distinct ?av'" "set ?av' = set ?av - {?a}" "length ?av' = length ?av - 1"
      using remove_nth_distinct [OF i dav] by auto
    have ain: "?a \<in> set ?av" using i by simp
    have same: "map (\<lambda>x. the (?m' x)) cs = map (\<lambda>x. the (?m x)) cs"
      using cnot by (intro map_cong) auto
    have cols: "map (\<lambda>x. the (?m' x)) (take 11 (cs @ [c])) = map (\<lambda>x. the (?m x)) cs @ [?a]"
      using short same by simp
    have take_cs: "take 11 cs = cs" using short by simp
    have d1: "distinct (map (\<lambda>x. the (?m x)) cs)" and disj: "set (map (\<lambda>x. the (?m x)) cs) \<inter> set ?av = {}"
      using dist take_cs by auto
    have anot: "?a \<notin> set (map (\<lambda>x. the (?m x)) cs)" using ain disj by auto
    have D: "distinct ((map (\<lambda>x. the (?m x)) cs @ [?a]) @ ?av')"
      using d1 anot av' disj by auto
    have U: "set (map (\<lambda>x. the (?m x)) cs @ [?a]) \<union> set ?av' = set GOOGLE_COLOR_IDS"
      using un take_cs av'(2) ain by auto
    have sel: "courseColorMap ?st' = ?m'" "availableColors ?st' = ?av'"
      "fallbackColorIndex ?st' = fallbackColorIndex st"
      by simp_all
    have c1: "dom (courseColorMap ?st') = set (cs @ [c])" using dom by (simp add: sel)
    have c2: "distinct (cs @ [c])" using dcs cnot by simp
    have c3: "[] \<notin> set (cs @ [c])" using ne draw(1) by simp
    have c4: "distinct (map (\<lambda>x. the (courseColorMap ?st' x)) (take 11 (cs @ [c]))
                        @ availableColors ?st')"
      unfolding sel cols by (rule D)
    have c5: "set (map (\<lambda>x. the (courseColorMap ?st' x)) (take 11 (cs @ [c])))
                \<union> set (availableColors ?st') = set GOOGLE_COLOR_IDS"
      unfolding sel cols by (rule U)
    have c6: "length (availableColors ?st') = 11 - length (cs @ [c])"
      unfolding sel using av'(3) len by simp
    have c7: "fallbackColorIndex ?st' = length (cs @ [c]) - 11"
      unfolding sel using fb short by simp
    have c8: "\<forall>k. 11 + k < length (cs @ [c]) \<longrightarrow>
                courseColorMap ?st' ((cs @ [c]) ! (11 + k)) = Some (GOOGLE_COLOR_IDS ! (k mod 11))"
      using short by simp
    have "colorInv ?st' (cs @ [c])"
      unfolding colorInv_def using c1 c2 c3 c4 c5 c6 c7 c8 by blast
    moreover have "?m \<subseteq>\<^sub>m ?m'" using draw(2) by (auto simp: map_le_def)
    ultimately show ?thesis using res nc draw(1) by simp
  next
    case cycle
    let ?k = "fallbackColorIndex st"
    let ?a = "GOOGLE_COLOR_IDS ! (?k mod 11)"
    let ?m' = "?m(c \<mapsto> ?a)"
    let ?st' = "st\<lparr>courseColorMap := ?m', fallbackColorIndex := Suc ?k\<rparr>"
    have res: "assignColor rnd c st = (Some ?a, ?st')" using cycle by (rule assignColor_cycle)
    have cnot: "c \<notin> set cs" using cycle(2) dom by auto
    then have nc: "noteCode cs c = cs @ [c]" using cycle(1) by (simp add: noteCode_def)
    have long: "11 \<le> length cs" using len cycle(3) by simp
    have tk: "take 11 (cs @ [c]) = take 11 cs" using long by simp
    have "set (take 11 cs) \<subseteq> set cs" by (rule set_take_subset)
    then have same: "map (\<lambda>x. the (?m' x)) (take 11 cs) = map (\<lambda>x. the (?m x)) (take 11 cs)"
      using cnot by (intro map_cong) auto
    have cyc': "\<forall>k. 11 + k < length (cs @ [c]) \<longrightarrow>
                  ?m' ((cs @ [c]) ! (11 + k)) = Some (GOOGLE_COLOR_IDS ! (k mod 11))"
    proof (intro allI impI)
      fix k assume k: "11 + k < length (cs @ [c])"
      show "?m' ((cs @ [c]) ! (11 + k)) = Some (GOOGLE_COLOR_IDS ! (k mod 11))"
      proof (cases "11 + k < length cs")
        case True
        then have "(cs @ [c]) ! (11 + k) = cs ! (11 + k)" by (simp add: nth_append)
        moreover have "cs ! (11 + k) \<in> set cs" using True by simp
        then have "cs ! (11 + k) \<noteq> c" using cnot by auto
        ultimately show ?thesis using cyc True by simp
      next
        case False
        with k have eq: "11 + k = length cs" by simp
        then have "(cs @ [c]) ! (11 + k) = c" by simp
        moreover have "k = ?k" using eq fb by simp
        ultimately show ?thesis by simp
      qed
    qed
    have sel: "courseColorMap ?st' = ?m'" "availableColors ?st' = []"
      "fallbackColorIndex ?st' = Suc ?k"
      using cycle(3) by simp_all
    have cols: "map (\<lambda>x. the (?m' x)) (take 11 (cs @ [c])) = map (\<lambda>x. the (?m x)) (take 11 cs)"
      unfolding tk by (rule same)
    have c1: "dom (courseColorMap ?st') = set (cs @ [c])" using dom by (simp add: sel)
    have c2: "distinct (cs @ [c])" using dcs cnot by simp
    have c3: "[] \<notin> set (cs @ [c])" using ne cycle(1) by simp
    have c4: "distinct (map (\<lambda>x. the (courseColorMap ?st' x)) (take 11 (cs @ [c]))
                        @ availableColors ?st')"
      unfolding sel cols using dist cycle(3) by simp
    have c5: "set (map (\<lambda>x. the (courseColorMap ?st' x)) (take 11 (cs @ [c])))
                \<union> set (availableColors ?st') = set GOOGLE_COLOR_IDS"
      unfolding sel cols using un cycle(3) by simp
    have c6: "length (availableColors ?st') = 11 - length (cs @ [c])"
      unfolding sel using long by simp
    have c7: "fallbackColorIndex ?st' = length (cs @ [c]) - 11"
      unfolding sel using fb long by simp
    have c8: "\<forall>k. 11 + k < length (cs @ [c]) \<longrightarrow>
                courseColorMap ?st' ((cs @ [c]) ! (11 + k)) = Some (GOOGLE_COLOR_IDS ! (k mod 11))"
      unfolding sel by (rule cyc')
    have "colorInv ?st' (cs @ [c])"
      unfolding colorInv_def using c1 c2 c3 c4 c5 c6 c7 c8 by blast
    moreover have "?m \<subseteq>\<^sub>m ?m'" using cycle(2) by (auto simp: map_le_def)
    ultimately show ?thesis using res nc cycle(1) by simp
  qed
qed


lemma colorId_googleEventOf [simp]: "colorId (googleEventOf env tz e s t r c) = c"
  by (simp add: googleEventOf_def)

lemma formatEvent_skip:
  "formatEvent env tz ts ud u e st = (Inl r, st') \<Longrightarrow> st' = st"
  unfolding formatEvent_def Let_def
  by (simp split: if_splits prod.splits)

lemma formatEvent_push:
  "formatEvent env tz ts ud u e st = (Inr g, st')
   \<Longrightarrow> assignColor (random env) (courseCode e) st = (colorId g, st')"
  unfolding formatEvent_def Let_def
  by (auto split: if_splits prod.splits)

lemma emittedCodes_Nil [simp]: "emittedCodes [] outs = []"
  by (simp add: emittedCodes_def)

lemma emittedCodes_Cons_Inl [simp]:
  "emittedCodes (e # es) (Inl r # outs) = emittedCodes es outs"
  by (simp add: emittedCodes_def)

lemma emittedCodes_Cons_Inr [simp]:
  "emittedCodes (e # es) (Inr g # outs) = courseCode e # emittedCodes es outs"
  by (simp add: emittedCodes_def)

lemma length_forEachEvent [simp]:
  "length (forEachEvent env tz ts ud u events st) = length events"
  by (induction events arbitrary: st) (auto split: prod.splits)

lemma forEachEvent_colors:
  assumes "colorInv st cs"
  shows "colorInv (colorsAfter env tz ts ud u events st)
           (foldl noteCode cs (emittedCodes events (forEachEvent env tz ts ud u events st)))
       \<and> courseColorMap st \<subseteq>\<^sub>m courseColorMap (colorsAfter env tz ts ud u events st)
       \<and> (\<forall>i<length events. \<forall>g. forEachEvent env tz ts ud u events st ! i = Inr g \<longrightarrow>
             colorId g = (if courseCode (events ! i) = [] then None
                          else Some (the (courseColorMap (colorsAfter env tz ts ud u events st)
                                            (courseCode (events ! i))))))"
  using assms
proof (induction events arbitrary: st cs)
  case Nil
  then show ?case by simp
next
  case (Cons e es)
  obtain out st' where fe: "formatEvent env tz ts ud u e st = (out, st')"
    by (cases "formatEvent env tz ts ud u e st")
  let ?F = "colorsAfter env tz ts ud u es st'"
  let ?outs = "forEachEvent env tz ts ud u es st'"
  have unfoldF: "colorsAfter env tz ts ud u (e # es) st = ?F" using fe by simp
  have unfoldO: "forEachEvent env tz ts ud u (e # es) st = out # ?outs" using fe by simp
  show ?case
  proof (cases out)
    case (Inl r)
    with fe have st': "st' = st" using formatEvent_skip by blast
    from Cons.prems st' have inv': "colorInv st' cs" by simp
    from Cons.IH [OF inv']
    have IH: "colorInv ?F (foldl noteCode cs (emittedCodes es ?outs))"
      "courseColorMap st \<subseteq>\<^sub>m courseColorMap ?F"
      "\<forall>i<length es. \<forall>g. ?outs ! i = Inr g \<longrightarrow>
             colorId g = (if courseCode (es ! i) = [] then None
                          else Some (the (courseColorMap ?F (courseCode (es ! i)))))"
      unfolding st' by blast+
    have ec: "emittedCodes (e # es) (out # ?outs) = emittedCodes es ?outs"
      using Inl by simp
    have A: "\<forall>i<length (e # es). \<forall>g. (out # ?outs) ! i = Inr g \<longrightarrow>
             colorId g = (if courseCode ((e # es) ! i) = [] then None
                          else Some (the (courseColorMap ?F (courseCode ((e # es) ! i)))))"
    proof (intro allI impI)
      fix i g assume i: "i < length (e # es)" and g: "(out # ?outs) ! i = Inr g"
      show "colorId g = (if courseCode ((e # es) ! i) = [] then None
                          else Some (the (courseColorMap ?F (courseCode ((e # es) ! i)))))"
      proof (cases i)
        case 0
        with g Inl show ?thesis by simp
      next
        case (Suc j)
        with i g have j: "j < length es" "?outs ! j = Inr g" by simp_all
        show ?thesis unfolding Suc nth_Cons_Suc by (rule IH(3) [rule_format, OF j])
      qed
    qed
    show ?thesis unfolding unfoldF unfoldO ec by (intro conjI IH(1) IH(2) A)
  next
    case (Inr g0)
    with fe have ac: "assignColor (random env) (courseCode e) st = (colorId g0, st')"
      using formatEvent_push by blast
    from ac have fs: "fst (assignColor (random env) (courseCode e) st) = colorId g0"
      "snd (assignColor (random env) (courseCode e) st) = st'"
      by simp_all
    from assignColor_inv [OF Cons.prems, of "random env" "courseCode e"]
    have step: "colorInv st' (noteCode cs (courseCode e))"
      "courseColorMap st \<subseteq>\<^sub>m courseColorMap st'"
      "colorId g0 = (if courseCode e = [] then None else courseColorMap st' (courseCode e))"
      "courseCode e \<noteq> [] \<longrightarrow> courseColorMap st' (courseCode e) \<noteq> None"
      unfolding fs by blast+
    from Cons.IH [OF step(1)]
    have IH: "colorInv ?F (foldl noteCode (noteCode cs (courseCode e)) (emittedCodes es ?outs))"
      "courseColorMap st' \<subseteq>\<^sub>m courseColorMap ?F"
      "\<forall>i<length es. \<forall>g. ?outs ! i = Inr g \<longrightarrow>
             colorId g = (if courseCode (es ! i) = [] then None
                          else Some (the (courseColorMap ?F (courseCode (es ! i)))))"
      by blast+
    have le: "courseColorMap st \<subseteq>\<^sub>m courseColorMap ?F"
      using step(2) IH(2) by (rule map_le_trans)
    have keep: "courseCode e \<noteq> [] \<Longrightarrow> courseColorMap ?F (courseCode e) = courseColorMap st' (courseCode e)"
      using step(4) IH(2) by (auto simp: map_le_def dom_def)
    have ec: "foldl noteCode cs (emittedCodes (e # es) (out # ?outs))
                = foldl noteCode (noteCode cs (courseCode e)) (emittedCodes es ?outs)"
      using Inr by simp
    have A: "\<forall>i<length (e # es). \<forall>g. (out # ?outs) ! i = Inr g \<longrightarrow>
             colorId g = (if courseCode ((e # es) ! i) = [] then None
                          else Some (the (courseColorMap ?F (courseCode ((e # es) ! i)))))"
    proof (intro allI impI)
      fix i g assume i: "i < length (e # es)" and g: "(out # ?outs) ! i = Inr g"
      show "colorId g = (if courseCode ((e # es) ! i) = [] then None
                          else Some (the (courseColorMap ?F (courseCode ((e # es) ! i)))))"
      proof (cases i)
        case 0
        with g Inr have "g = g0" by simp
        show ?thesis
        proof (cases "courseCode e = []")
          case True
          with step(3) 0 \<open>g = g0\<close> show ?thesis by simp
        next
          case False
          with step(4) obtain y where y: "courseColorMap st' (courseCode e) = Some y"
            by (cases "courseColorMap st' (courseCode e)") auto
          from keep [OF False] y have "courseColorMap ?F (courseCode e) = Some y" by simp
          moreover from step(3) False y have "colorId g0 = Some y" by simp
          ultimately show ?thesis using False 0 \<open>g = g0\<close> by simp
        qed
      next
        case (Suc j)
        with i g have j: "j < length es" "?outs ! j = Inr g" by simp_all
        show ?thesis unfolding Suc nth_Cons_Suc by (rule IH(3) [rule_format, OF j])
      qed
    qed
    show ?thesis unfolding unfoldF unfoldO ec by (intro conjI IH(1) le A)
  qed
qed


lemma formatOutcomes_loop:
  assumes "formatOutcomes env sd tz = Inr outcomes"
  shows "\<exists>ts ud u. outcomes = forEachEvent env tz ts ud u (scheduleEvents sd) initialColors"
  using assms
  by (auto simp: formatOutcomes_def Let_def split: if_splits option.splits)

lemma set_distinctCodes_aux: "set (foldl noteCode seen codes) = set seen \<union> (set codes - {[]})"
  by (induction codes arbitrary: seen) (auto simp: noteCode_def)

lemma set_distinctCodes: "set (distinctCodes codes) = set codes - {[]}"
  by (simp add: distinctCodes_def set_distinctCodes_aux)

text \<open>
  C7. In one call of \<open>formatEventsForGoogle\<close> that does not throw, two descriptors whose
  events have the same course code have the same \<open>colorId\<close>. There is an assignment
  \<open>pick\<close> of colours to codes such that every descriptor of an event with a non-empty code
  has the colour of its code (and none when the code is empty); over the first eleven
  distinct codes, in the order in which their first descriptors are emitted, the colours
  are pairwise distinct members of the palette \<open>GOOGLE_COLOR_IDS\<close>, whatever the random
  draws are; and the code at position \<open>11 + k\<close> has the palette colour at index
  \<open>k mod 11\<close>.
\<close>

theorem course_colors:
  assumes "formatOutcomes env schedule userTimeZone = Inr outcomes"
  shows "formatEventsForGoogle env schedule userTimeZone = Inr (pushed outcomes)
       \<and> length outcomes = length (scheduleEvents schedule)
       \<and> (\<forall>i<length (scheduleEvents schedule). \<forall>j<length (scheduleEvents schedule). \<forall>gi gj.
             outcomes ! i = Inr gi \<and> outcomes ! j = Inr gj
             \<and> courseCode (scheduleEvents schedule ! i) = courseCode (scheduleEvents schedule ! j)
             \<longrightarrow> colorId gi = colorId gj)
       \<and> (\<exists>pick.
            (\<forall>i<length (scheduleEvents schedule). \<forall>g. outcomes ! i = Inr g \<longrightarrow>
               colorId g = (if courseCode (scheduleEvents schedule ! i) = [] then None
                            else Some (pick (courseCode (scheduleEvents schedule ! i)))))
          \<and> distinct (map pick (take 11 (distinctCodes (emittedCodes (scheduleEvents schedule) outcomes))))
          \<and> set (map pick (take 11 (distinctCodes (emittedCodes (scheduleEvents schedule) outcomes))))
              \<subseteq> set GOOGLE_COLOR_IDS
          \<and> (\<forall>k. 11 + k < length (distinctCodes (emittedCodes (scheduleEvents schedule) outcomes)) \<longrightarrow>
                pick (distinctCodes (emittedCodes (scheduleEvents schedule) outcomes) ! (11 + k))
                  = GOOGLE_COLOR_IDS ! (k mod 11)))"
proof -
  let ?evs = "scheduleEvents schedule"
  let ?cs = "distinctCodes (emittedCodes ?evs outcomes)"
  from formatOutcomes_loop [OF assms] obtain ts ud u where
    outs: "outcomes = forEachEvent env userTimeZone ts ud u ?evs initialColors"
    by blast
  let ?F = "colorsAfter env userTimeZone ts ud u ?evs initialColors"
  let ?pick = "\<lambda>c. the (courseColorMap ?F c)"
  from forEachEvent_colors [OF colorInv_initial, of env userTimeZone ts ud u ?evs]
  have inv: "colorInv ?F ?cs"
    and p1: "\<forall>i<length ?evs. \<forall>g. outcomes ! i = Inr g \<longrightarrow>
               colorId g = (if courseCode (?evs ! i) = [] then None
                            else Some (?pick (courseCode (?evs ! i))))"
    unfolding outs distinctCodes_def by blast+
  from inv have d: "distinct (map ?pick (take 11 ?cs) @ availableColors ?F)"
    and un: "set (map ?pick (take 11 ?cs)) \<union> set (availableColors ?F) = set GOOGLE_COLOR_IDS"
    and cyc: "\<forall>k. 11 + k < length ?cs \<longrightarrow>
                courseColorMap ?F (?cs ! (11 + k)) = Some (GOOGLE_COLOR_IDS ! (k mod 11))"
    unfolding colorInv_def by blast+
  have p2: "distinct (map ?pick (take 11 ?cs))" using d by simp
  have p3: "set (map ?pick (take 11 ?cs)) \<subseteq> set GOOGLE_COLOR_IDS" using un by blast
  have p4: "\<forall>k. 11 + k < length ?cs \<longrightarrow> ?pick (?cs ! (11 + k)) = GOOGLE_COLOR_IDS ! (k mod 11)"
    using cyc by simp
  have r: "formatEventsForGoogle env schedule userTimeZone = Inr (pushed outcomes)"
    using assms by (simp add: formatEventsForGoogle_def)
  have l: "length outcomes = length ?evs" unfolding outs by simp
  from p1 p2 p3 p4 have "\<exists>pick.
            (\<forall>i<length ?evs. \<forall>g. outcomes ! i = Inr g \<longrightarrow>
               colorId g = (if courseCode (?evs ! i) = [] then None
                            else Some (pick (courseCode (?evs ! i)))))
          \<and> distinct (map pick (take 11 ?cs))
          \<and> set (map pick (take 11 ?cs)) \<subseteq> set GOOGLE_COLOR_IDS
          \<and> (\<forall>k. 11 + k < length ?cs \<longrightarrow> pick (?cs ! (11 + k)) = GOOGLE_COLOR_IDS ! (k mod 11))"
    by (intro exI [of _ ?pick] conjI)
  moreover have "\<forall>i<length ?evs. \<forall>j<length ?evs. \<forall>gi gj.
             outcomes ! i = Inr gi \<and> outcomes ! j = Inr gj
             \<and> courseCode (?evs ! i) = courseCode (?evs ! j)
             \<longrightarrow> colorId gi = colorId gj"
  proof (intro allI impI)
    fix i j gi gj
    assume i: "i < length ?evs" and j: "j < length ?evs"
      and h: "outcomes ! i = Inr gi \<and> outcomes ! j = Inr gj
              \<and> courseCode (?evs ! i) = courseCode (?evs ! j)"
    from p1 [rule_format, OF i, of gi] p1 [rule_format, OF j, of gj] h
    show "colorId gi = colorId gj" by simp
  qed
  ultimately show ?thesis using r l by blast
qed



theorem course_colors_witness:
  "map_sum id (map colorId) (formatEventsForGoogle exampleEnv colorSchedule ''America/New_York'')
     = Inr [Some ''1'', Some ''2'', Some ''1'']"
proof -
  have v: "map_sum id (map colorId) (formatEventsForGoogle exampleEnv colorSchedule ''America/New_York'')
     = Inr [Some ''1'', Some ''2'', Some ''1'']"
    by code_simp
  then obtain outcomes where
    o: "formatOutcomes exampleEnv colorSchedule ''America/New_York'' = Inr outcomes"
    unfolding formatEventsForGoogle_def
    by (cases "formatOutcomes exampleEnv colorSchedule ''America/New_York''") auto
  from course_colors [OF o] have "length outcomes = length (scheduleEvents colorSchedule)"
    by blast
  with v show ?thesis by simp
qed

section \<open>The loop of the worker over the files\<close>

lemma fileLoop_0 [simp]: "fileLoop env job 0 st = st"
  by (simp add: fileLoop_def)

lemma fileLoop_Suc: "fileLoop env job (Suc n) st = processFile env job (fileLoop env job n st) n"
  by (simp add: fileLoop_def)

lemma finallyBlock_fields [simp]:
  "allScheduleEvents (finallyBlock env i p st) = allScheduleEvents st"
  "termStartDate' (finallyBlock env i p st) = termStartDate' st"
  "termEndDate' (finallyBlock env i p st) = termEndDate' st"
  "filesProcessedSuccessfully (finallyBlock env i p st) = filesProcessedSuccessfully st"
  "fileProcessingErrors (finallyBlock env i p st) = fileProcessingErrors st"
  "processingWarnings' (finallyBlock env i p st) = processingWarnings' st"
  "unlinkCalls (finallyBlock env i p st) = unlinkCalls st @ [p]"
  "tempFiles (finallyBlock env i p st) = (if unlinkFails env i then tempFiles st else tempFiles st - {p})"
  by (simp_all add: finallyBlock_def)

lemma catchBlock_fields [simp]:
  "allScheduleEvents (catchBlock f m st) = allScheduleEvents st"
  "termStartDate' (catchBlock f m st) = termStartDate' st"
  "termEndDate' (catchBlock f m st) = termEndDate' st"
  "filesProcessedSuccessfully (catchBlock f m st) = filesProcessedSuccessfully st"
  "fileProcessingErrors (catchBlock f m st)
     = fileProcessingErrors st @ [\<lparr>errFilename = f, errText = orElse m ''Unknown processing error''\<rparr>]"
  "processingWarnings' (catchBlock f m st) = processingWarnings' st"
  "unlinkCalls (catchBlock f m st) = unlinkCalls st"
  "tempFiles (catchBlock f m st) = tempFiles st"
  by (simp_all add: catchBlock_def)

lemma tryBlock_unusable:
  assumes "\<not> usable v"
  shows "allScheduleEvents (tryBlock f v st) = allScheduleEvents st"
    "termStartDate' (tryBlock f v st) = termStartDate' st"
    "termEndDate' (tryBlock f v st) = termEndDate' st"
    "filesProcessedSuccessfully (tryBlock f v st) = Suc (filesProcessedSuccessfully st)"
    "fileProcessingErrors (tryBlock f v st)
       = fileProcessingErrors st @ [\<lparr>errFilename = f, errText = invalidResultMessage\<rparr>]"
    "processingWarnings' (tryBlock f v st) = processingWarnings' st"
    "unlinkCalls (tryBlock f v st) = unlinkCalls st"
    "tempFiles (tryBlock f v st) = tempFiles st"
    "logged (tryBlock f v st) = logged st @ [(Warn, invalidResultMessage)]"
  using assms by (simp_all add: tryBlock_def)

lemma tryBlock_usable:
  assumes "usable v"
  shows "allScheduleEvents (tryBlock f v st)
           = allScheduleEvents st
             @ filter (\<lambda>event. scheduleEventSchema event \<noteq> None) (arrayItems (getProp v ''scheduleEvents''))"
    "termStartDate' (tryBlock f v st)
       = fst (captureTermDate ''start'' ''termStartDate'' f (getProp v ''termStartDate'') (termStartDate' st))"
    "termEndDate' (tryBlock f v st)
       = fst (captureTermDate ''end'' ''termEndDate'' f (getProp v ''termEndDate'') (termEndDate' st))"
    "filesProcessedSuccessfully (tryBlock f v st) = Suc (filesProcessedSuccessfully st)"
    "fileProcessingErrors (tryBlock f v st) = fileProcessingErrors st"
    "processingWarnings' (tryBlock f v st)
       = processingWarnings' st
         @ fst (snd (captureTermDate ''start'' ''termStartDate'' f (getProp v ''termStartDate'') (termStartDate' st)))
         @ fst (snd (captureTermDate ''end'' ''termEndDate'' f (getProp v ''termEndDate'') (termEndDate' st)))"
    "unlinkCalls (tryBlock f v st) = unlinkCalls st"
    "tempFiles (tryBlock f v st) = tempFiles st"
    "logged (tryBlock f v st)
       = logged st
         @ map (\<lambda>event. (Warn, filterWarning))
             (filter (\<lambda>event. scheduleEventSchema event = None) (arrayItems (getProp v ''scheduleEvents'')))
         @ snd (snd (captureTermDate ''start'' ''termStartDate'' f (getProp v ''termStartDate'') (termStartDate' st)))
         @ snd (snd (captureTermDate ''end'' ''termEndDate'' f (getProp v ''termEndDate'') (termEndDate' st)))"
  using assms by (simp_all add: tryBlock_def Let_def split: prod.splits)


lemma dateRegexTest_nonempty: "dateRegexTest s \<Longrightarrow> s \<noteq> []"
  by (auto simp: dateRegexTest_def)

lemma capture_None: "fst (captureTermDate w fld f v None) = dateStringSchema v"
  using dateRegexTest_nonempty
  by (cases v) (auto simp: captureTermDate_def dateStringSchema_def truthyStr_def truthy_def zString_def)

lemma capture_Some: "d \<noteq> [] \<Longrightarrow> fst (captureTermDate w fld f v (Some d)) = Some d"
  by (simp add: captureTermDate_def truthyStr_def)

lemma capture_warnings:
  "fst (snd (captureTermDate w fld f v cur))
     = (if \<not> truthyStr cur \<and> malformedDate v
        then [\<lparr>warnFilename = f, warnMessage = invalidDateMessage w,
               warnField = Some fld, warnValue = Some v\<rparr>]
        else [])"
  using dateRegexTest_nonempty
  by (cases v) (auto simp: captureTermDate_def malformedDate_def truthy_def zString_def)

lemma capture_logs:
  "snd (snd (captureTermDate w fld f v cur))
     = (if \<not> truthyStr cur \<and> malformedDate v then [(Warn, invalidDateMessage w)] else [])"
  using dateRegexTest_nonempty
  by (cases v) (auto simp: captureTermDate_def malformedDate_def truthy_def zString_def)

lemma processFile_events:
  "allScheduleEvents (processFile env job st i) = allScheduleEvents st @ validatedEventsOf env i"
proof (cases "fileOutcome env i")
  case (Extracted v)
  then show ?thesis
    by (cases "usable v")
       (simp_all add: processFile_def validatedEventsOf_def tryBlock_usable tryBlock_unusable)
qed (simp_all add: processFile_def validatedEventsOf_def)

lemma processFile_errors:
  "fileProcessingErrors (processFile env job st i) = fileProcessingErrors st @ errorsOf env job i"
proof (cases "fileOutcome env i")
  case (Extracted v)
  then show ?thesis
    by (cases "usable v")
       (simp_all add: processFile_def errorsOf_def tryBlock_usable tryBlock_unusable)
qed (simp_all add: processFile_def errorsOf_def)

lemma processFile_count:
  "filesProcessedSuccessfully (processFile env job st i)
     = filesProcessedSuccessfully st + (if fileThrows env i then 0 else 1)"
proof (cases "fileOutcome env i")
  case (Extracted v)
  then show ?thesis
    by (cases "usable v")
       (simp_all add: processFile_def fileThrows_def tryBlock_usable tryBlock_unusable)
qed (simp_all add: processFile_def fileThrows_def)

lemma processFile_unlink:
  "unlinkCalls (processFile env job st i) = unlinkCalls st @ [tempFilePaths job ! i]"
proof (cases "fileOutcome env i")
  case (Extracted v)
  then show ?thesis
    by (cases "usable v") (simp_all add: processFile_def tryBlock_usable tryBlock_unusable)
qed (simp_all add: processFile_def)

lemma processFile_files:
  "tempFiles (processFile env job st i)
     = (if unlinkFails env i then tempFiles st else tempFiles st - {tempFilePaths job ! i})"
proof (cases "fileOutcome env i")
  case (Extracted v)
  then show ?thesis
    by (cases "usable v") (simp_all add: processFile_def tryBlock_usable tryBlock_unusable)
qed (simp_all add: processFile_def)

lemma processFile_start:
  "termStartDate' (processFile env job st i)
     = (case fileOutcome env i of
          Extracted v \<Rightarrow>
            if usable v
            then fst (captureTermDate ''start'' ''termStartDate'' (nthOpt (originalFilenames job) i)
                        (getProp v ''termStartDate'') (termStartDate' st))
            else termStartDate' st
        | _ \<Rightarrow> termStartDate' st)"
proof (cases "fileOutcome env i")
  case (Extracted v)
  then show ?thesis
    by (cases "usable v") (simp_all add: processFile_def tryBlock_usable tryBlock_unusable)
qed (simp_all add: processFile_def)

lemma processFile_end:
  "termEndDate' (processFile env job st i)
     = (case fileOutcome env i of
          Extracted v \<Rightarrow>
            if usable v
            then fst (captureTermDate ''end'' ''termEndDate'' (nthOpt (originalFilenames job) i)
                        (getProp v ''termEndDate'') (termEndDate' st))
            else termEndDate' st
        | _ \<Rightarrow> termEndDate' st)"
proof (cases "fileOutcome env i")
  case (Extracted v)
  then show ?thesis
    by (cases "usable v") (simp_all add: processFile_def tryBlock_usable tryBlock_unusable)
qed (simp_all add: processFile_def)

lemma processFile_warnings:
  "processingWarnings' (processFile env job st i)
     = processingWarnings' st
       @ (case fileOutcome env i of
            Extracted v \<Rightarrow>
              if usable v
              then fst (snd (captureTermDate ''start'' ''termStartDate'' (nthOpt (originalFilenames job) i)
                               (getProp v ''termStartDate'') (termStartDate' st)))
                   @ fst (snd (captureTermDate ''end'' ''termEndDate'' (nthOpt (originalFilenames job) i)
                                 (getProp v ''termEndDate'') (termEndDate' st)))
              else []
          | _ \<Rightarrow> [])"
proof (cases "fileOutcome env i")
  case (Extracted v)
  then show ?thesis
    by (cases "usable v") (simp_all add: processFile_def tryBlock_usable tryBlock_unusable)
qed (simp_all add: processFile_def)


lemma firstSome_single: "firstSome [x] = x"
  by (cases x) simp_all

lemma firstSome_snoc:
  "firstSome (xs @ [x]) = (case firstSome xs of None \<Rightarrow> x | Some y \<Rightarrow> Some y)"
  by (induction xs rule: firstSome.induct) (simp_all add: firstSome_single)

lemma suppliedDate_valid: "suppliedDate fld env i = Some d \<Longrightarrow> dateRegexTest d"
  by (auto simp: suppliedDate_def dateStringSchema_def
           split: file_outcome.splits if_splits jsval.splits)

lemma firstSome_supplied_valid:
  "firstSome (map (suppliedDate fld env) js) = Some d \<Longrightarrow> dateRegexTest d"
proof (induction js)
  case Nil
  then show ?case by simp
next
  case (Cons j js)
  then show ?case
    by (cases "suppliedDate fld env j") (auto dest: suppliedDate_valid)
qed

lemma truthyStr_firstSome:
  "truthyStr (firstSome (map (suppliedDate fld env) js))
     = (firstSome (map (suppliedDate fld env) js) \<noteq> None)"
  using firstSome_supplied_valid [of fld env js] dateRegexTest_nonempty
  by (cases "firstSome (map (suppliedDate fld env) js)") (auto simp: truthyStr_def)

lemma capture_step:
  "fst (captureTermDate w fld f v (firstSome (map (suppliedDate fld env) js)))
     = (case firstSome (map (suppliedDate fld env) js) of
          None \<Rightarrow> dateStringSchema v | Some d \<Rightarrow> Some d)"
proof (cases "firstSome (map (suppliedDate fld env) js)")
  case None
  then show ?thesis by (simp add: capture_None)
next
  case (Some d)
  then have "d \<noteq> []" using firstSome_supplied_valid dateRegexTest_nonempty by blast
  with Some show ?thesis by (simp add: capture_Some)
qed

lemma date_step:
  "(case fileOutcome env n of
      Extracted v \<Rightarrow>
        if usable v
        then fst (captureTermDate w fld f (getProp v fld) (firstSome (map (suppliedDate fld env) js)))
        else firstSome (map (suppliedDate fld env) js)
    | _ \<Rightarrow> firstSome (map (suppliedDate fld env) js))
   = firstSome (map (suppliedDate fld env) (js @ [n]))"
proof -
  let ?cur = "firstSome (map (suppliedDate fld env) js)"
  have r: "firstSome (map (suppliedDate fld env) (js @ [n]))
             = (case ?cur of None \<Rightarrow> suppliedDate fld env n | Some d \<Rightarrow> Some d)"
    by (simp add: firstSome_snoc)
  show ?thesis
  proof (cases "fileOutcome env n")
    case (Extracted v)
    show ?thesis
    proof (cases "usable v")
      case True
      with Extracted have "suppliedDate fld env n = dateStringSchema (getProp v fld)"
        by (simp add: suppliedDate_def)
      with Extracted True show ?thesis
        unfolding r by (simp add: capture_step split: option.splits)
    next
      case False
      with Extracted show ?thesis
        unfolding r by (simp add: suppliedDate_def split: option.splits)
    qed
  qed (simp_all add: suppliedDate_def firstSome_snoc split: option.splits)
qed

lemma loop_start:
  "termStartDate' (fileLoop env job n (initialJobState files))
     = firstSome (map (suppliedDate ''termStartDate'' env) [0..<n])"
proof (induction n)
  case 0
  show ?case by (simp add: initialJobState_def)
next
  case (Suc n)
  show ?case
    unfolding fileLoop_Suc processFile_start Suc.IH
    using date_step [where env = env and n = n and fld = "''termStartDate''" and js = "[0..<n]"]
    by simp
qed

lemma loop_end:
  "termEndDate' (fileLoop env job n (initialJobState files))
     = firstSome (map (suppliedDate ''termEndDate'' env) [0..<n])"
proof (induction n)
  case 0
  show ?case by (simp add: initialJobState_def)
next
  case (Suc n)
  show ?case
    unfolding fileLoop_Suc processFile_end Suc.IH
    using date_step [where env = env and n = n and fld = "''termEndDate''" and js = "[0..<n]"]
    by simp
qed

lemma loop_events:
  "allScheduleEvents (fileLoop env job n (initialJobState files))
     = concat (map (validatedEventsOf env) [0..<n])"
  by (induction n) (simp_all add: initialJobState_def fileLoop_Suc processFile_events)

lemma loop_errors:
  "fileProcessingErrors (fileLoop env job n (initialJobState files))
     = concat (map (errorsOf env job) [0..<n])"
  by (induction n) (simp_all add: initialJobState_def fileLoop_Suc processFile_errors)

lemma loop_count:
  "filesProcessedSuccessfully (fileLoop env job n (initialJobState files))
     = length (filter (\<lambda>i. \<not> fileThrows env i) [0..<n])"
  by (induction n) (simp_all add: initialJobState_def fileLoop_Suc processFile_count)

lemma loop_unlink:
  "unlinkCalls (fileLoop env job n (initialJobState files))
     = map (\<lambda>i. tempFilePaths job ! i) [0..<n]"
  by (induction n) (simp_all add: initialJobState_def fileLoop_Suc processFile_unlink)

lemma loop_files:
  "tempFiles (fileLoop env job n (initialJobState files))
     = files - {tempFilePaths job ! i |i. i < n \<and> \<not> unlinkFails env i}"
proof (induction n)
  case 0
  show ?case by (simp add: initialJobState_def)
next
  case (Suc n)
  have "{tempFilePaths job ! i |i. i < Suc n \<and> \<not> unlinkFails env i}
        = {tempFilePaths job ! i |i. i < n \<and> \<not> unlinkFails env i}
          \<union> (if unlinkFails env n then {} else {tempFilePaths job ! n})"
    by (auto simp: less_Suc_eq)
  then show ?case
    unfolding fileLoop_Suc processFile_files Suc.IH by auto
qed

lemma loop_warnings:
  "processingWarnings' (fileLoop env job n (initialJobState files))
     = concat (map (\<lambda>i. dateWarning ''start'' ''termStartDate'' env job i
                         @ dateWarning ''end'' ''termEndDate'' env job i) [0..<n])"
proof (induction n)
  case 0
  show ?case by (simp add: initialJobState_def)
next
  case (Suc n)
  have "(case fileOutcome env n of
            Extracted v \<Rightarrow>
              if usable v
              then fst (snd (captureTermDate ''start'' ''termStartDate'' (nthOpt (originalFilenames job) n)
                               (getProp v ''termStartDate'')
                               (firstSome (map (suppliedDate ''termStartDate'' env) [0..<n]))))
                   @ fst (snd (captureTermDate ''end'' ''termEndDate'' (nthOpt (originalFilenames job) n)
                                 (getProp v ''termEndDate'')
                                 (firstSome (map (suppliedDate ''termEndDate'' env) [0..<n]))))
              else []
          | _ \<Rightarrow> [])
        = dateWarning ''start'' ''termStartDate'' env job n
          @ dateWarning ''end'' ''termEndDate'' env job n"
    by (cases "fileOutcome env n")
       (simp_all add: dateWarning_def capture_warnings truthyStr_firstSome)
  then show ?case
    unfolding fileLoop_Suc processFile_warnings Suc.IH loop_start loop_end by simp
qed


lemma worldOf_fields [simp]:
  "filesOnDisk (worldOf st store l) = tempFiles st"
  "unlinked (worldOf st store l) = unlinkCalls st"
  "redis (worldOf st store l) = store"
  "logs (worldOf st store l) = logged st @ l"
  by (simp_all add: worldOf_def)

lemma zNullable_date_optStr:
  "d = None \<or> dateRegexTest (the d)
   \<Longrightarrow> zNullable dateStringSchema (optStr d) = Some d"
  by (cases d) (auto simp: zNullable_def optStr_def dateStringSchema_def)

lemma zArray_all_valid:
  "\<forall>e\<in>set xs. inner e \<noteq> None \<Longrightarrow> zArray inner (JArr xs) = Some (map (\<lambda>x. the (inner x)) xs)"
  by (simp add: zArray_def list_all_iff)

lemma combined_valid:
  assumes "\<forall>e\<in>set (allScheduleEvents st). scheduleEventSchema e \<noteq> None"
    and "termStartDate' st = None \<or> dateRegexTest (the (termStartDate' st))"
    and "termEndDate' st = None \<or> dateRegexTest (the (termEndDate' st))"
  shows "scheduleDataSchema (combinedScheduleData st)
         = Some \<lparr>termStartDate = termStartDate' st, termEndDate = termEndDate' st,
                 scheduleEvents = map (\<lambda>e. the (scheduleEventSchema e)) (allScheduleEvents st)\<rparr>"
proof -
  have p: "getProp (combinedScheduleData st) ''termStartDate'' = optStr (termStartDate' st)"
    "getProp (combinedScheduleData st) ''termEndDate'' = optStr (termEndDate' st)"
    "getProp (combinedScheduleData st) ''scheduleEvents'' = JArr (allScheduleEvents st)"
    "isObject (combinedScheduleData st)"
    by (simp_all add: combinedScheduleData_def getProp_def isObject_def)
  show ?thesis
    unfolding scheduleDataSchema_def
    by (simp add: p zNullable_date_optStr [OF assms(2)] zNullable_date_optStr [OF assms(3)]
          zArray_all_valid [OF assms(1)])
qed

lemma validatedEventsOf_valid: "e \<in> set (validatedEventsOf env i) \<Longrightarrow> scheduleEventSchema e \<noteq> None"
  by (auto simp: validatedEventsOf_def split: file_outcome.splits if_splits)

lemma firstSome_None_or_valid:
  "firstSome (map (suppliedDate fld env) js) = None
   \<or> dateRegexTest (the (firstSome (map (suppliedDate fld env) js)))"
  using firstSome_supplied_valid [of fld env js]
  by (cases "firstSome (map (suppliedDate fld env) js)") auto

lemma loop_combined_valid:
  "scheduleDataSchema (combinedScheduleData (fileLoop env job n (initialJobState files)))
   = Some \<lparr>termStartDate = firstSome (map (suppliedDate ''termStartDate'' env) [0..<n]),
           termEndDate = firstSome (map (suppliedDate ''termEndDate'' env) [0..<n]),
           scheduleEvents = map (\<lambda>e. the (scheduleEventSchema e))
                              (concat (map (validatedEventsOf env) [0..<n]))\<rparr>"
proof -
  let ?st = "fileLoop env job n (initialJobState files)"
  have a: "\<forall>e\<in>set (allScheduleEvents ?st). scheduleEventSchema e \<noteq> None"
    unfolding loop_events using validatedEventsOf_valid by auto
  have b: "termStartDate' ?st = None \<or> dateRegexTest (the (termStartDate' ?st))"
    unfolding loop_start by (rule firstSome_None_or_valid)
  have c: "termEndDate' ?st = None \<or> dateRegexTest (the (termEndDate' ?st))"
    unfolding loop_end by (rule firstSome_None_or_valid)
  show ?thesis
    using combined_valid [OF a b c] by (simp add: loop_events loop_start loop_end)
qed

section \<open>Outcome of a job\<close>

lemma storePreview_ok:
  assumes "redisSetError env = None"
  shows "fst (storePreview env job st store sd)
           = Inr \<lparr>message = ''Processed '' @ showNat (filesProcessedSuccessfully st) @ ''/''
                             @ showNat (length (tempFilePaths job)) @ '' files.'',
                  finalEventCount = length (scheduleEvents sd),
                  warningCount = length (processingWarnings' st),
                  errorCount = length (fileProcessingErrors st)\<rparr>"
    and "redis (snd (storePreview env job st store sd))
           = store(''preview:'' @ sessionId job \<mapsto>
               (stringify env \<lparr>scheduleData = sd, processingWarnings = processingWarnings' st,
                                processingErrors = fileProcessingErrors st\<rparr>, 1800))"
    and "filesOnDisk (snd (storePreview env job st store sd)) = tempFiles st"
    and "unlinked (snd (storePreview env job st store sd)) = unlinkCalls st"
  using assms by (simp_all add: storePreview_def Let_def)

lemma storePreview_world:
  "filesOnDisk (snd (storePreview env job st store sd)) = tempFiles st"
  "unlinked (snd (storePreview env job st store sd)) = unlinkCalls st"
  by (simp_all add: storePreview_def Let_def split: option.splits)

lemma processAiJob_cases:
  "processAiJob env job files store =
     (if filesProcessedSuccessfully (fileLoop env job (length (tempFilePaths job)) (initialJobState files)) = 0
         \<and> 0 < length (tempFilePaths job)
      then (Inl (AllFilesFailed (length (tempFilePaths job))
                  (fileProcessingErrors (fileLoop env job (length (tempFilePaths job)) (initialJobState files)))),
            worldOf (fileLoop env job (length (tempFilePaths job)) (initialJobState files)) store
              [(Error, ''AI processing failed for all files in the job.'')])
      else storePreview env job (fileLoop env job (length (tempFilePaths job)) (initialJobState files)) store
             (scheduleData (expectedPreview env job)))"
proof -
  have "scheduleDataSchema (combinedScheduleData
          (fileLoop env job (length (tempFilePaths job)) (initialJobState files)))
        = Some (scheduleData (expectedPreview env job))"
    unfolding loop_combined_valid by (simp add: expectedPreview_def Let_def)
  then show ?thesis
    unfolding processAiJob_def Let_def by (simp only: option.case)
qed

lemma job_world:
  "unlinked (snd (processAiJob env job files store))
     = unlinkCalls (fileLoop env job (length (tempFilePaths job)) (initialJobState files))"
  "filesOnDisk (snd (processAiJob env job files store))
     = tempFiles (fileLoop env job (length (tempFilePaths job)) (initialJobState files))"
  unfolding processAiJob_cases by (simp_all add: storePreview_world)

lemma job_all_throw:
  assumes "tempFilePaths job \<noteq> []"
    and "\<forall>i<length (tempFilePaths job). fileThrows env i"
  shows "fst (processAiJob env job files store)
           = Inl (AllFilesFailed (length (tempFilePaths job))
                    (concat (map (errorsOf env job) [0..<length (tempFilePaths job)])))"
    and "redis (snd (processAiJob env job files store)) = store"
proof -
  have "filter (\<lambda>i. \<not> fileThrows env i) [0..<length (tempFilePaths job)] = []"
    using assms(2) by (simp add: filter_empty_conv)
  then have z: "filesProcessedSuccessfully
               (fileLoop env job (length (tempFilePaths job)) (initialJobState files)) = 0"
    by (simp add: loop_count)
  show "fst (processAiJob env job files store)
           = Inl (AllFilesFailed (length (tempFilePaths job))
                    (concat (map (errorsOf env job) [0..<length (tempFilePaths job)])))"
    unfolding processAiJob_cases using z assms(1) by (simp add: loop_errors)
  show "redis (snd (processAiJob env job files store)) = store"
    unfolding processAiJob_cases using z assms(1) by simp
qed

lemma preview_of_loop:
  "\<lparr>scheduleData = scheduleData (expectedPreview env job),
    processingWarnings =
      processingWarnings' (fileLoop env job (length (tempFilePaths job)) (initialJobState files)),
    processingErrors =
      fileProcessingErrors (fileLoop env job (length (tempFilePaths job)) (initialJobState files))\<rparr>
   = expectedPreview env job"
  by (simp add: expectedPreview_def Let_def loop_warnings loop_errors)

lemma job_success:
  assumes "\<exists>i<length (tempFilePaths job). \<not> fileThrows env i"
    and "redisSetError env = None"
  shows "fst (processAiJob env job files store)
           = Inr \<lparr>message = ''Processed ''
                          @ showNat (length (filter (\<lambda>i. \<not> fileThrows env i) [0..<length (tempFilePaths job)]))
                          @ ''/'' @ showNat (length (tempFilePaths job)) @ '' files.'',
                  finalEventCount = length (scheduleEvents (scheduleData (expectedPreview env job))),
                  warningCount = length (processingWarnings (expectedPreview env job)),
                  errorCount = length (processingErrors (expectedPreview env job))\<rparr>"
    and "redis (snd (processAiJob env job files store))
           = store(''preview:'' @ sessionId job \<mapsto> (stringify env (expectedPreview env job), 1800))"
proof -
  let ?n = "length (tempFilePaths job)"
  let ?st = "fileLoop env job ?n (initialJobState files)"
  from assms(1) obtain i where "i < ?n" "\<not> fileThrows env i" by blast
  then have "i \<in> set (filter (\<lambda>i. \<not> fileThrows env i) [0..<?n])" by simp
  then have "filter (\<lambda>i. \<not> fileThrows env i) [0..<?n] \<noteq> []" by (metis empty_iff empty_set)
  then have go: "filesProcessedSuccessfully ?st \<noteq> 0" by (simp add: loop_count)
  have run: "processAiJob env job files store
               = storePreview env job ?st store (scheduleData (expectedPreview env job))"
    unfolding processAiJob_cases using go by simp
  have w: "length (processingWarnings' ?st) = length (processingWarnings (expectedPreview env job))"
    and e: "length (fileProcessingErrors ?st) = length (processingErrors (expectedPreview env job))"
    by (simp_all add: expectedPreview_def Let_def loop_warnings loop_errors)
  show "fst (processAiJob env job files store)
           = Inr \<lparr>message = ''Processed ''
                          @ showNat (length (filter (\<lambda>i. \<not> fileThrows env i) [0..<length (tempFilePaths job)]))
                          @ ''/'' @ showNat (length (tempFilePaths job)) @ '' files.'',
                  finalEventCount = length (scheduleEvents (scheduleData (expectedPreview env job))),
                  warningCount = length (processingWarnings (expectedPreview env job)),
                  errorCount = length (processingErrors (expectedPreview env job))\<rparr>"
    unfolding run storePreview_ok(1) [OF assms(2)] w e by (simp add: loop_count)
  show "redis (snd (processAiJob env job files store))
           = store(''preview:'' @ sessionId job \<mapsto> (stringify env (expectedPreview env job), 1800))"
    unfolding run storePreview_ok(2) [OF assms(2)] preview_of_loop ..
qed

lemma fileUsable_not_throws: "fileUsable env i \<Longrightarrow> \<not> fileThrows env i"
  by (auto simp: fileUsable_def fileThrows_def split: file_outcome.splits)

lemma validatedEventsOf_unusable: "\<not> fileUsable env i \<Longrightarrow> validatedEventsOf env i = []"
  by (auto simp: fileUsable_def validatedEventsOf_def split: file_outcome.splits)

lemma errorsOf_usable: "fileUsable env i \<Longrightarrow> errorsOf env job i = []"
  by (auto simp: fileUsable_def errorsOf_def split: file_outcome.splits)

lemma errorsOf_unusable:
  "\<not> fileUsable env i \<Longrightarrow>
   \<exists>t. errorsOf env job i = [\<lparr>errFilename = nthOpt (originalFilenames job) i, errText = t\<rparr>]"
  by (auto simp: fileUsable_def errorsOf_def split: file_outcome.splits)

lemma concat_map_filter_nonempty:
  "(\<And>x. \<not> P x \<Longrightarrow> f x = []) \<Longrightarrow> concat (map f xs) = concat (map f (filter P xs))"
  by (induction xs) auto

lemma error_names:
  "map errFilename (concat (map (errorsOf env job) js))
     = map (nthOpt (originalFilenames job)) (filter (\<lambda>i. \<not> fileUsable env i) js)"
proof (induction js)
  case Nil
  show ?case by simp
next
  case (Cons j js)
  show ?case
  proof (cases "fileUsable env j")
    case True
    then show ?thesis using Cons.IH by (simp add: errorsOf_usable)
  next
    case False
    from errorsOf_unusable [OF this, of job] obtain t where
      "errorsOf env job j = [\<lparr>errFilename = nthOpt (originalFilenames job) j, errText = t\<rparr>]" ..
    then show ?thesis using False Cons.IH by simp
  qed
qed

text \<open>
  C1 (as amended). For every job with a non-empty list of files in which reading or
  extraction throws for every file, \<open>processAiJob\<close> throws the error "AI processing
  failed for all N files" and leaves the preview store as it was: no \<open>PreviewResult\<close> is
  written.
\<close>

theorem all_files_throw_job_fails:
  assumes "tempFilePaths job \<noteq> []"
    and "\<forall>i<length (tempFilePaths job). fileThrows env i"
  shows "(\<exists>errs. fst (processAiJob env job files store)
                   = Inl (AllFilesFailed (length (tempFilePaths job)) errs))
       \<and> redis (snd (processAiJob env job files store)) = store"
  using job_all_throw [OF assms] by blast

theorem all_files_throw_job_fails_witness:
  "tempFilePaths twoFileJob \<noteq> []
   \<and> fst (processAiJob allThrowEnv twoFileJob {''/tmp/a'', ''/tmp/b''} Map.empty)
       = Inl (AllFilesFailed 2 [\<lparr>errFilename = Some ''a.png'', errText = ''Cannot read file''\<rparr>,
                                \<lparr>errFilename = Some ''b.png'', errText = ''Cannot read file''\<rparr>])
   \<and> redis (snd (processAiJob allThrowEnv twoFileJob {''/tmp/a'', ''/tmp/b''} Map.empty)) ''preview:s1''
       = None"
proof -
  have h1: "tempFilePaths twoFileJob \<noteq> []" by (simp add: twoFileJob_def)
  have h2: "\<forall>i<length (tempFilePaths twoFileJob). fileThrows allThrowEnv i"
    by (simp add: fileThrows_def allThrowEnv_def)
  have v: "fst (processAiJob allThrowEnv twoFileJob {''/tmp/a'', ''/tmp/b''} Map.empty)
       = Inl (AllFilesFailed 2 [\<lparr>errFilename = Some ''a.png'', errText = ''Cannot read file''\<rparr>,
                                \<lparr>errFilename = Some ''b.png'', errText = ''Cannot read file''\<rparr>])"
    by code_simp
  from all_files_throw_job_fails [OF h1 h2, of "{''/tmp/a'', ''/tmp/b''}" Map.empty]
  have "redis (snd (processAiJob allThrowEnv twoFileJob {''/tmp/a'', ''/tmp/b''} Map.empty)) = Map.empty"
    by blast
  with h1 v show ?thesis by simp
qed

text \<open>
  C1 as stated fails: a file whose extraction returns a value without a usable array of
  events is recorded as a processing error but counts as processed. A job whose only file
  yields the object \<open>{}\<close> returns normally and stores a preview with no event and one
  processing error.
\<close>

theorem unusable_output_job_succeeds:
  "\<not> fileUsable emptyObjectEnv 0
   \<and> fst (processAiJob emptyObjectEnv oneFileJob {''/tmp/a''} Map.empty)
       = Inr \<lparr>message = ''Processed 1/1 files.'', finalEventCount = 0, warningCount = 0,
              errorCount = 1\<rparr>
   \<and> redis (snd (processAiJob emptyObjectEnv oneFileJob {''/tmp/a''} Map.empty)) ''preview:s1''
       = Some (''{}'', 1800)"
  by code_simp


text \<open>
  C2. For every job in which at least one file yields a usable result and the store
  accepts the \<open>SET\<close>, whatever the other files do (throw, or yield no usable array),
  \<open>processAiJob\<close> returns normally and stores under \<open>preview:<sessionId>\<close>, for 1800
  seconds, the result whose events are exactly the validated events of the files with a
  usable result, in file order, and whose \<open>processingErrors\<close> has one entry for each
  other file, in file order, carrying the original name of that file.
\<close>

theorem partial_success_preview:
  assumes "\<exists>i<length (tempFilePaths job). fileUsable env i"
    and "redisSetError env = None"
  shows "(\<exists>r. fst (processAiJob env job files store) = Inr r)
       \<and> redis (snd (processAiJob env job files store)) (''preview:'' @ sessionId job)
           = Some (stringify env (expectedPreview env job), 1800)
       \<and> scheduleEvents (scheduleData (expectedPreview env job))
           = map (\<lambda>event. the (scheduleEventSchema event))
               (concat (map (validatedEventsOf env)
                          (filter (fileUsable env) [0..<length (tempFilePaths job)])))
       \<and> map errFilename (processingErrors (expectedPreview env job))
           = map (nthOpt (originalFilenames job))
               (filter (\<lambda>i. \<not> fileUsable env i) [0..<length (tempFilePaths job)])"
proof -
  from assms(1) have ok: "\<exists>i<length (tempFilePaths job). \<not> fileThrows env i"
    using fileUsable_not_throws by blast
  have ev: "concat (map (validatedEventsOf env) [0..<length (tempFilePaths job)])
            = concat (map (validatedEventsOf env)
                        (filter (fileUsable env) [0..<length (tempFilePaths job)]))"
    by (rule concat_map_filter_nonempty) (rule validatedEventsOf_unusable)
  have a: "scheduleEvents (scheduleData (expectedPreview env job))
           = map (\<lambda>event. the (scheduleEventSchema event))
               (concat (map (validatedEventsOf env)
                          (filter (fileUsable env) [0..<length (tempFilePaths job)])))"
    using ev by (simp add: expectedPreview_def Let_def)
  have b: "map errFilename (processingErrors (expectedPreview env job))
           = map (nthOpt (originalFilenames job))
               (filter (\<lambda>i. \<not> fileUsable env i) [0..<length (tempFilePaths job)])"
    by (simp add: expectedPreview_def Let_def error_names)
  from job_success [OF ok assms(2), of files store] a b show ?thesis by simp
qed

theorem partial_success_preview_witness:
  "fileUsable secondThrowsEnv 0 \<and> redisSetError secondThrowsEnv = None
   \<and> redis (snd (processAiJob secondThrowsEnv threeFileJob {} Map.empty)) ''preview:s1''
       = Some (''{}'', 1800)
   \<and> scheduleEvents (scheduleData (expectedPreview secondThrowsEnv threeFileJob))
       = [goodEvent ''CS101'', goodEvent ''CS101'']
   \<and> processingErrors (expectedPreview secondThrowsEnv threeFileJob)
       = [\<lparr>errFilename = Some ''b.png'', errText = ''AI processing failed''\<rparr>]"
proof -
  have u: "fileUsable secondThrowsEnv 0" by code_simp
  then have h1: "\<exists>i<length (tempFilePaths threeFileJob). fileUsable secondThrowsEnv i"
    by (auto simp: threeFileJob_def)
  have h2: "redisSetError secondThrowsEnv = None" by (simp add: secondThrowsEnv_def baseEnv_def)
  have s: "stringify secondThrowsEnv (expectedPreview secondThrowsEnv threeFileJob) = ''{}''"
    by (simp add: secondThrowsEnv_def baseEnv_def)
  have k: "sessionId threeFileJob = ''s1''" by (simp add: threeFileJob_def)
  have v: "scheduleEvents (scheduleData (expectedPreview secondThrowsEnv threeFileJob))
             = [goodEvent ''CS101'', goodEvent ''CS101'']"
    "processingErrors (expectedPreview secondThrowsEnv threeFileJob)
       = [\<lparr>errFilename = Some ''b.png'', errText = ''AI processing failed''\<rparr>]"
    by code_simp+
  from partial_success_preview [OF h1 h2, of "{}" Map.empty] s k
  have "redis (snd (processAiJob secondThrowsEnv threeFileJob {} Map.empty)) ''preview:s1''
          = Some (''{}'', 1800)"
    by simp
  with u h2 v show ?thesis by simp
qed

lemma upt_nth_take: "n \<le> length xs \<Longrightarrow> map (\<lambda>i. xs ! i) [0..<n] = take n xs"
  by (rule nth_equalityI) auto

text \<open>
  C8. Whatever reading, extraction and validation do for each file, and whether the job
  ends normally or throws, \<open>processAiJob\<close> calls \<open>unlink\<close> on \<open>tempFilePaths[i]\<close> in
  iteration \<open>i\<close>: after iteration \<open>i\<close> the calls made are the first \<open>i + 1\<close> paths, at the
  end they are all the paths of the job, in order; and a file whose \<open>unlink\<close> does not
  fail is gone after its own iteration and at the end of the job.
\<close>

theorem temp_files_unlinked:
  "unlinked (snd (processAiJob env job files store)) = tempFilePaths job
   \<and> (\<forall>i<length (tempFilePaths job).
         unlinkCalls (fileLoop env job (Suc i) (initialJobState files))
           = take (Suc i) (tempFilePaths job)
         \<and> (\<not> unlinkFails env i \<longrightarrow>
              tempFilePaths job ! i \<notin> tempFiles (fileLoop env job (Suc i) (initialJobState files))
              \<and> tempFilePaths job ! i \<notin> filesOnDisk (snd (processAiJob env job files store))))"
proof (intro conjI allI impI)
  show "unlinked (snd (processAiJob env job files store)) = tempFilePaths job"
    by (simp add: job_world loop_unlink upt_nth_take)
next
  fix i assume i: "i < length (tempFilePaths job)"
  then show "unlinkCalls (fileLoop env job (Suc i) (initialJobState files))
               = take (Suc i) (tempFilePaths job)"
    unfolding loop_unlink by (intro upt_nth_take) simp
next
  fix i assume i: "i < length (tempFilePaths job)" and ok: "\<not> unlinkFails env i"
  show "tempFilePaths job ! i \<notin> tempFiles (fileLoop env job (Suc i) (initialJobState files))"
    unfolding loop_files using ok by auto
  show "tempFilePaths job ! i \<notin> filesOnDisk (snd (processAiJob env job files store))"
    unfolding job_world loop_files using ok i by auto
qed

theorem temp_files_unlinked_witness:
  "unlinked (snd (processAiJob secondThrowsEnv threeFileJob {''/tmp/a'', ''/tmp/b'', ''/tmp/c'', ''/tmp/x''} Map.empty))
     = [''/tmp/a'', ''/tmp/b'', ''/tmp/c'']
   \<and> filesOnDisk (snd (processAiJob secondThrowsEnv threeFileJob {''/tmp/a'', ''/tmp/b'', ''/tmp/c'', ''/tmp/x''} Map.empty))
     = {''/tmp/x''}"
proof -
  have p: "tempFilePaths threeFileJob = [''/tmp/a'', ''/tmp/b'', ''/tmp/c'']"
    by (simp add: threeFileJob_def)
  have f: "filesOnDisk (snd (processAiJob secondThrowsEnv threeFileJob {''/tmp/a'', ''/tmp/b'', ''/tmp/c'', ''/tmp/x''} Map.empty))
     = {''/tmp/x''}"
    by code_simp
  from temp_files_unlinked [of secondThrowsEnv threeFileJob "{''/tmp/a'', ''/tmp/b'', ''/tmp/c'', ''/tmp/x''}" Map.empty]
  have "unlinked (snd (processAiJob secondThrowsEnv threeFileJob {''/tmp/a'', ''/tmp/b'', ''/tmp/c'', ''/tmp/x''} Map.empty))
     = tempFilePaths threeFileJob"
    by blast
  with p f show ?thesis by simp
qed

section \<open>Term dates and candidate events\<close>

lemma firstSome_None_iff: "firstSome xs = None \<longleftrightarrow> (\<forall>x\<in>set xs. x = None)"
  by (induction xs rule: firstSome.induct) simp_all

lemma firstSome_upt_iff:
  "firstSome (map f [0..<n]) = Some d \<longleftrightarrow> (\<exists>i<n. f i = Some d \<and> (\<forall>j<i. f j = None))"
proof (induction n arbitrary: d)
  case 0
  show ?case by simp
next
  case (Suc n)
  show ?case
  proof (cases "firstSome (map f [0..<n])")
    case None
    then have all: "\<forall>j<n. f j = None" by (auto simp: firstSome_None_iff)
    have "firstSome (map f [0..<Suc n]) = f n" using None by (simp add: firstSome_snoc)
    moreover have "(\<exists>i<Suc n. f i = Some d \<and> (\<forall>j<i. f j = None)) \<longleftrightarrow> f n = Some d"
    proof
      assume "\<exists>i<Suc n. f i = Some d \<and> (\<forall>j<i. f j = None)"
      then obtain i where i: "i < Suc n" "f i = Some d" by blast
      with all have "i = n" by (cases "i < n") auto
      with i show "f n = Some d" by simp
    next
      assume "f n = Some d"
      with all show "\<exists>i<Suc n. f i = Some d \<and> (\<forall>j<i. f j = None)" by auto
    qed
    ultimately show ?thesis by simp
  next
    case (Some y)
    then have first: "firstSome (map f [0..<Suc n]) = Some y" by (simp add: firstSome_snoc)
    from Some Suc.IH [of y] obtain i0 where
      i0: "i0 < n" "f i0 = Some y" "\<forall>j<i0. f j = None" by blast
    have "(\<exists>i<Suc n. f i = Some d \<and> (\<forall>j<i. f j = None)) \<longleftrightarrow> y = d"
    proof
      assume "\<exists>i<Suc n. f i = Some d \<and> (\<forall>j<i. f j = None)"
      then obtain i where i: "f i = Some d" "\<forall>j<i. f j = None" by blast
      have "\<not> i0 < i" using i(2) i0(2) by auto
      moreover have "\<not> i < i0" using i0(3) i(1) by auto
      ultimately have "i = i0" by simp
      with i(1) i0(2) show "y = d" by simp
    next
      assume "y = d"
      with i0 show "\<exists>i<Suc n. f i = Some d \<and> (\<forall>j<i. f j = None)"
        by (intro exI [of _ i0]) simp
    qed
    with first show ?thesis by simp
  qed
qed

lemma storePreview_not_invalid: "fst (storePreview env job st store sd) \<noteq> Inl CombinedDataInvalid"
  by (simp add: storePreview_def Let_def split: option.splits)

lemma job_never_invalid: "fst (processAiJob env job files store) \<noteq> Inl CombinedDataInvalid"
  unfolding processAiJob_cases by (simp add: storePreview_not_invalid)

text \<open>
  C5 (as amended). Files are taken in input order, and only a file whose result has a
  usable array of events supplies a date. Each of \<open>termStartDate\<close> and \<open>termEndDate\<close> of the
  merge is the value of the first such file whose value for the field is a well-formed
  \<open>YYYY-MM-DD\<close> string, and is unset when there is none; later values are ignored. A
  non-empty malformed string met in such a file while the field is still unset adds a
  warning with the name of the file, the name of the field and the value, and leaves the
  field unset; an empty string, a value that is not a string, and any value met once the
  field is set add none. No date makes a file or the job fail: every file that does not
  throw counts as processed, the validation of the merged data never fails, and when some
  file does not throw and the store accepts the \<open>SET\<close>, the stored preview carries these
  dates and warnings.
\<close>

theorem term_dates_first_wellformed:
  "(termStartDate' (fileLoop env job (length (tempFilePaths job)) (initialJobState files)) = Some d
      \<longleftrightarrow> (\<exists>i<length (tempFilePaths job).
             suppliedDate ''termStartDate'' env i = Some d
             \<and> (\<forall>j<i. suppliedDate ''termStartDate'' env j = None)))
   \<and> (termEndDate' (fileLoop env job (length (tempFilePaths job)) (initialJobState files)) = Some d
      \<longleftrightarrow> (\<exists>i<length (tempFilePaths job).
             suppliedDate ''termEndDate'' env i = Some d
             \<and> (\<forall>j<i. suppliedDate ''termEndDate'' env j = None)))
   \<and> processingWarnings' (fileLoop env job (length (tempFilePaths job)) (initialJobState files))
       = concat (map (\<lambda>i. dateWarning ''start'' ''termStartDate'' env job i
                           @ dateWarning ''end'' ''termEndDate'' env job i)
                   [0..<length (tempFilePaths job)])
   \<and> filesProcessedSuccessfully (fileLoop env job (length (tempFilePaths job)) (initialJobState files))
       = length (filter (\<lambda>i. \<not> fileThrows env i) [0..<length (tempFilePaths job)])
   \<and> fst (processAiJob env job files store) \<noteq> Inl CombinedDataInvalid
   \<and> ((\<exists>i<length (tempFilePaths job). \<not> fileThrows env i) \<and> redisSetError env = None \<longrightarrow>
        redis (snd (processAiJob env job files store)) (''preview:'' @ sessionId job)
          = Some (stringify env (expectedPreview env job), 1800)
        \<and> termStartDate (scheduleData (expectedPreview env job))
            = termStartDate' (fileLoop env job (length (tempFilePaths job)) (initialJobState files))
        \<and> termEndDate (scheduleData (expectedPreview env job))
            = termEndDate' (fileLoop env job (length (tempFilePaths job)) (initialJobState files))
        \<and> processingWarnings (expectedPreview env job)
            = processingWarnings' (fileLoop env job (length (tempFilePaths job)) (initialJobState files)))"
proof (intro conjI impI)
  show "termStartDate' (fileLoop env job (length (tempFilePaths job)) (initialJobState files)) = Some d
      \<longleftrightarrow> (\<exists>i<length (tempFilePaths job).
             suppliedDate ''termStartDate'' env i = Some d
             \<and> (\<forall>j<i. suppliedDate ''termStartDate'' env j = None))"
    unfolding loop_start by (rule firstSome_upt_iff)
  show "termEndDate' (fileLoop env job (length (tempFilePaths job)) (initialJobState files)) = Some d
      \<longleftrightarrow> (\<exists>i<length (tempFilePaths job).
             suppliedDate ''termEndDate'' env i = Some d
             \<and> (\<forall>j<i. suppliedDate ''termEndDate'' env j = None))"
    unfolding loop_end by (rule firstSome_upt_iff)
  show "processingWarnings' (fileLoop env job (length (tempFilePaths job)) (initialJobState files))
       = concat (map (\<lambda>i. dateWarning ''start'' ''termStartDate'' env job i
                           @ dateWarning ''end'' ''termEndDate'' env job i)
                   [0..<length (tempFilePaths job)])"
    by (rule loop_warnings)
  show "filesProcessedSuccessfully (fileLoop env job (length (tempFilePaths job)) (initialJobState files))
       = length (filter (\<lambda>i. \<not> fileThrows env i) [0..<length (tempFilePaths job)])"
    by (rule loop_count)
  show "fst (processAiJob env job files store) \<noteq> Inl CombinedDataInvalid"
    by (rule job_never_invalid)
next
  assume h: "(\<exists>i<length (tempFilePaths job). \<not> fileThrows env i) \<and> redisSetError env = None"
  then show "redis (snd (processAiJob env job files store)) (''preview:'' @ sessionId job)
          = Some (stringify env (expectedPreview env job), 1800)"
    using job_success(2) [of job env files store] by simp
next
  show "termStartDate (scheduleData (expectedPreview env job))
            = termStartDate' (fileLoop env job (length (tempFilePaths job)) (initialJobState files))"
    by (simp add: expectedPreview_def Let_def loop_start)
  show "termEndDate (scheduleData (expectedPreview env job))
            = termEndDate' (fileLoop env job (length (tempFilePaths job)) (initialJobState files))"
    by (simp add: expectedPreview_def Let_def loop_end)
  show "processingWarnings (expectedPreview env job)
            = processingWarnings' (fileLoop env job (length (tempFilePaths job)) (initialJobState files))"
    by (simp add: expectedPreview_def Let_def loop_warnings)
qed

theorem term_dates_first_wellformed_witness:
  "termStartDate' (fileLoop datesEnv twoFileJob (length (tempFilePaths twoFileJob)) (initialJobState {}))
     = Some ''2024-09-01''
   \<and> termEndDate' (fileLoop datesEnv twoFileJob (length (tempFilePaths twoFileJob)) (initialJobState {}))
     = Some ''2024-12-31''
   \<and> processingWarnings' (fileLoop datesEnv twoFileJob (length (tempFilePaths twoFileJob)) (initialJobState {}))
     = [\<lparr>warnFilename = Some ''a.png'', warnMessage = invalidDateMessage ''start'',
         warnField = Some ''termStartDate'', warnValue = Some (JStr ''bad-date'')\<rparr>]
   \<and> filesProcessedSuccessfully
       (fileLoop datesEnv twoFileJob (length (tempFilePaths twoFileJob)) (initialJobState {})) = 2"
proof -
  have v: "termStartDate' (fileLoop datesEnv twoFileJob (length (tempFilePaths twoFileJob)) (initialJobState {}))
     = Some ''2024-09-01''"
   "termEndDate' (fileLoop datesEnv twoFileJob (length (tempFilePaths twoFileJob)) (initialJobState {}))
     = Some ''2024-12-31''"
   "processingWarnings' (fileLoop datesEnv twoFileJob (length (tempFilePaths twoFileJob)) (initialJobState {}))
     = [\<lparr>warnFilename = Some ''a.png'', warnMessage = invalidDateMessage ''start'',
         warnField = Some ''termStartDate'', warnValue = Some (JStr ''bad-date'')\<rparr>]"
    by code_simp+
  have c: "length (filter (\<lambda>i. \<not> fileThrows datesEnv i) [0..<length (tempFilePaths twoFileJob)]) = 2"
    by code_simp
  from term_dates_first_wellformed [of datesEnv twoFileJob "{}" "''2024-09-01''" Map.empty] c
  have "filesProcessedSuccessfully
       (fileLoop datesEnv twoFileJob (length (tempFilePaths twoFileJob)) (initialJobState {})) = 2"
    by simp
  with v show ?thesis by simp
qed

text \<open>
  C5 as stated fails on two files. The first supplies the well-formed start date
  \<open>2024-01-01\<close>, but its result has no array of events, so the date is not taken; the
  second supplies the empty string, which is not a date and yet adds no warning. The
  merge has no start date and no warning.
\<close>

theorem dates_ignored_without_warning:
  "fileOutcome ignoredDatesEnv 0 = Extracted (JObj [(''termStartDate'', JStr ''2024-01-01'')])
   \<and> dateRegexTest ''2024-01-01''
   \<and> fileOutcome ignoredDatesEnv 1
       = Extracted (JObj [(''termStartDate'', JStr []), (''scheduleEvents'', JArr [])])
   \<and> \<not> dateRegexTest []
   \<and> termStartDate' (fileLoop ignoredDatesEnv twoFileJob 2 (initialJobState {})) = None
   \<and> processingWarnings' (fileLoop ignoredDatesEnv twoFileJob 2 (initialJobState {})) = []
   \<and> fst (processAiJob ignoredDatesEnv twoFileJob {} Map.empty)
       = Inr \<lparr>message = ''Processed 2/2 files.'', finalEventCount = 0, warningCount = 0,
              errorCount = 1\<rparr>"
  by code_simp

lemma zString_iff: "zString v \<noteq> None \<longleftrightarrow> isString v"
  by (cases v) (simp_all add: zString_def isString_def)

lemma zNullable_zString_iff: "zNullable zString v \<noteq> None \<longleftrightarrow> isStringOrNull v"
  by (cases v) (simp_all add: zNullable_def zString_def isStringOrNull_def)

lemma zTimeString_iff: "zTimeString v \<noteq> None \<longleftrightarrow> isTimeString v"
  by (cases v) (simp_all add: zTimeString_def isTimeString_def)

lemma zDaysMin1_iff:
  "zDaysMin1 v \<noteq> None
     \<longleftrightarrow> (case v of JArr ds \<Rightarrow> ds \<noteq> [] \<and> list_all isString ds | _ \<Rightarrow> False)"
proof (cases v)
  case (JArr ds)
  have "list_all (\<lambda>x. zString x \<noteq> None) ds = list_all isString ds"
    by (simp only: zString_iff)
  then show ?thesis
    using JArr by (cases ds) (auto simp: zDaysMin1_def zArray_def)
qed (simp_all add: zDaysMin1_def zArray_def)

lemma scheduleEventSchema_iff: "scheduleEventSchema e \<noteq> None \<longleftrightarrow> passesEventSchema e"
proof -
  have "scheduleEventSchema e \<noteq> None \<longleftrightarrow>
          isObject e \<and> zString (getProp e ''courseCode'') \<noteq> None
          \<and> zNullable zString (getProp e ''courseName'') \<noteq> None
          \<and> zNullable zString (getProp e ''sectionDetails'') \<noteq> None
          \<and> zDaysMin1 (getProp e ''days'') \<noteq> None
          \<and> zTimeString (getProp e ''startTime'') \<noteq> None
          \<and> zTimeString (getProp e ''endTime'') \<noteq> None
          \<and> zNullable zString (getProp e ''location'') \<noteq> None"
    unfolding scheduleEventSchema_def
    by (auto split: option.splits)
  then show ?thesis
    unfolding passesEventSchema_def zString_iff zNullable_zString_iff zTimeString_iff zDaysMin1_iff .
qed

lemma filter_warning_count:
  "length (filter (\<lambda>l. l = (Warn, filterWarning)) (map (\<lambda>event. (Warn, filterWarning)) xs))
     = length xs"
  by (induction xs) simp_all

lemma date_log_not_filter_warning: "invalidDateMessage w \<noteq> filterWarning"
  by (simp add: invalidDateMessage_def filterWarning_def)

lemma capture_logs_no_filter_warning:
  "filter (\<lambda>l. l = (Warn, filterWarning)) (snd (snd (captureTermDate w fld f v cur))) = []"
  by (simp add: capture_logs date_log_not_filter_warning)

text \<open>
  C6 (as amended). For a result with a usable array of events, the merger keeps a
  candidate event if and only if \<open>scheduleEventSchema\<close> accepts it: the candidate is an
  object whose \<open>courseCode\<close> is a string, whose \<open>courseName\<close>, \<open>sectionDetails\<close> and \<open>location\<close>
  are each a string or \<open>null\<close>, whose \<open>days\<close> is a non-empty array of strings, and whose
  \<open>startTime\<close> and \<open>endTime\<close> are strings in which \<open>\d{1,2}:\d{2}\s*(AM|PM)\<close> has a match,
  in any letter case. The kept events are appended in order; each dropped event adds one
  warning "Filtering out invalid event from AI result." to the log and nothing else: the
  file still counts as processed, it gets no processing error, and the validation of the
  merged data at the end of the job never fails.
\<close>

theorem events_kept_iff_schema:
  assumes "usable aiResult"
  shows "allScheduleEvents (tryBlock originalFilename aiResult st)
           = allScheduleEvents st
             @ filter passesEventSchema (arrayItems (getProp aiResult ''scheduleEvents''))
       \<and> length (filter (\<lambda>l. l = (Warn, filterWarning)) (logged (tryBlock originalFilename aiResult st)))
           = length (filter (\<lambda>l. l = (Warn, filterWarning)) (logged st))
             + length (filter (\<lambda>event. \<not> passesEventSchema event)
                         (arrayItems (getProp aiResult ''scheduleEvents'')))
       \<and> filesProcessedSuccessfully (tryBlock originalFilename aiResult st)
           = Suc (filesProcessedSuccessfully st)
       \<and> fileProcessingErrors (tryBlock originalFilename aiResult st) = fileProcessingErrors st
       \<and> (\<forall>event. scheduleEventSchema event \<noteq> None \<longleftrightarrow> passesEventSchema event)
       \<and> fst (processAiJob env job files store) \<noteq> Inl CombinedDataInvalid"
proof -
  have k: "(\<lambda>event. scheduleEventSchema event \<noteq> None) = passesEventSchema"
    by (rule ext) (rule scheduleEventSchema_iff)
  have d: "(\<lambda>event. scheduleEventSchema event = None) = (\<lambda>event. \<not> passesEventSchema event)"
    by (rule ext) (use scheduleEventSchema_iff in blast)
  have a: "allScheduleEvents (tryBlock originalFilename aiResult st)
           = allScheduleEvents st
             @ filter passesEventSchema (arrayItems (getProp aiResult ''scheduleEvents''))"
    unfolding tryBlock_usable(1) [OF assms] k ..
  have b: "length (filter (\<lambda>l. l = (Warn, filterWarning)) (logged (tryBlock originalFilename aiResult st)))
           = length (filter (\<lambda>l. l = (Warn, filterWarning)) (logged st))
             + length (filter (\<lambda>event. \<not> passesEventSchema event)
                         (arrayItems (getProp aiResult ''scheduleEvents'')))"
    unfolding tryBlock_usable(9) [OF assms] d
    by (simp add: filter_warning_count capture_logs_no_filter_warning)
  show ?thesis
    using a b tryBlock_usable(4,5) [OF assms] scheduleEventSchema_iff job_never_invalid
    by blast
qed

theorem events_kept_iff_schema_witness:
  "usable (JObj [(''scheduleEvents'', JArr [goodEventJson ''CS101'', noCodeEventJson])])
   \<and> allScheduleEvents
       (tryBlock (Some ''a.png'')
          (JObj [(''scheduleEvents'', JArr [goodEventJson ''CS101'', noCodeEventJson])])
          (initialJobState {}))
       = [goodEventJson ''CS101'']
   \<and> logged
       (tryBlock (Some ''a.png'')
          (JObj [(''scheduleEvents'', JArr [goodEventJson ''CS101'', noCodeEventJson])])
          (initialJobState {}))
       = [(Warn, filterWarning)]
   \<and> filesProcessedSuccessfully
       (tryBlock (Some ''a.png'')
          (JObj [(''scheduleEvents'', JArr [goodEventJson ''CS101'', noCodeEventJson])])
          (initialJobState {})) = 1"
proof -
  have u: "usable (JObj [(''scheduleEvents'', JArr [goodEventJson ''CS101'', noCodeEventJson])])"
    by code_simp
  have v: "allScheduleEvents
       (tryBlock (Some ''a.png'')
          (JObj [(''scheduleEvents'', JArr [goodEventJson ''CS101'', noCodeEventJson])])
          (initialJobState {}))
       = [goodEventJson ''CS101'']"
    "logged
       (tryBlock (Some ''a.png'')
          (JObj [(''scheduleEvents'', JArr [goodEventJson ''CS101'', noCodeEventJson])])
          (initialJobState {}))
       = [(Warn, filterWarning)]"
    by code_simp+
  from events_kept_iff_schema [OF u, of "Some ''a.png''" "initialJobState {}"]
  have "filesProcessedSuccessfully
       (tryBlock (Some ''a.png'')
          (JObj [(''scheduleEvents'', JArr [goodEventJson ''CS101'', noCodeEventJson])])
          (initialJobState {})) = Suc (filesProcessedSuccessfully (initialJobState {}))"
    by blast
  then have "filesProcessedSuccessfully
       (tryBlock (Some ''a.png'')
          (JObj [(''scheduleEvents'', JArr [goodEventJson ''CS101'', noCodeEventJson])])
          (initialJobState {})) = 1"
    by (simp add: initialJobState_def)
  with u v show ?thesis by simp
qed

text \<open>
  C6 as stated fails: a candidate with a non-empty list of days and two times that match
  the pattern, but without a course code, is dropped.
\<close>

theorem event_without_code_dropped:
  "getProp noCodeEventJson ''days'' = JArr [JStr ''Mon'']
   \<and> getProp noCodeEventJson ''startTime'' = JStr ''9:00 AM'' \<and> timeRegexTest ''9:00 AM''
   \<and> getProp noCodeEventJson ''endTime'' = JStr ''10:00 AM'' \<and> timeRegexTest ''10:00 AM''
   \<and> allScheduleEvents
       (tryBlock (Some ''a.png'') (JObj [(''scheduleEvents'', JArr [noCodeEventJson])])
          (initialJobState {}))
       = []"
  by code_simp

section \<open>Reading a preview back\<close>

lemma getPreview_malformed:
  assumes "truthyStr (sessionIdOf s)" and "truthyStr (accessToken s)" and "dateNow env < expiresAt s"
    and "\<not> redisGetFails env"
    and "store (''preview:'' @ the (sessionIdOf s)) = Some (v, ttl)" and "v \<noteq> []"
    and "Option.bind (jsonParse env v) previewResultSchema = None"
  shows "getPreview env (Some s) store
         = (readFailure,
            \<lparr>storeAfter = (if redisDelFails env then store
                            else store(''preview:'' @ the (sessionIdOf s) := None)),
             sessionDestroyed = False, delCalls = [''preview:'' @ the (sessionIdOf s)]\<rparr>)"
  using assms by (simp add: getPreview_def Let_def truthyStr_def)

text \<open>
  C9 (as amended). For a request with a valid session whose token has not expired, when
  the store returns, under \<open>preview:<sessionId>\<close>, a non-empty string that \<open>JSON.parse\<close>
  rejects or whose parsed value \<open>previewResultSchema\<close> rejects, the handler issues one
  \<open>DEL\<close> of that key, so that the entry is gone unless the \<open>DEL\<close> itself fails, and replies
  500 "Failed to read preview data."; the reply never carries a preview.
\<close>

theorem malformed_preview_deleted:
  assumes "truthyStr (sessionIdOf s)" and "truthyStr (accessToken s)" and "dateNow env < expiresAt s"
    and "\<not> redisGetFails env"
    and "store (''preview:'' @ the (sessionIdOf s)) = Some (v, ttl)" and "v \<noteq> []"
    and "jsonParse env v = None \<or> (\<exists>j. jsonParse env v = Some j \<and> previewResultSchema j = None)"
  shows "fst (getPreview env (Some s) store)
           = Reply 500 (ErrorBody ''Internal Server Error'' ''Failed to read preview data.'')
       \<and> delCalls (snd (getPreview env (Some s) store)) = [''preview:'' @ the (sessionIdOf s)]
       \<and> (\<not> redisDelFails env \<longrightarrow>
            storeAfter (snd (getPreview env (Some s) store)) (''preview:'' @ the (sessionIdOf s)) = None)
       \<and> (\<forall>r. fst (getPreview env (Some s) store) \<noteq> Reply 200 (PreviewBody r))"
proof -
  from assms(7) have "Option.bind (jsonParse env v) previewResultSchema = None" by auto
  from getPreview_malformed [where store = store and v = v and ttl = ttl, OF assms(1-6) this]
  show ?thesis
    by (simp add: readFailure_def)
qed

theorem malformed_preview_deleted_witness:
  "truthyStr (sessionIdOf exampleSession) \<and> truthyStr (accessToken exampleSession)
   \<and> dateNow examplePreviewEnv < expiresAt exampleSession
   \<and> jsonParse examplePreviewEnv ''{}'' = Some (JObj []) \<and> previewResultSchema (JObj []) = None
   \<and> fst (getPreview examplePreviewEnv (Some exampleSession) [''preview:s1'' \<mapsto> (''{}'', 1800)])
       = Reply 500 (ErrorBody ''Internal Server Error'' ''Failed to read preview data.'')
   \<and> storeAfter (snd (getPreview examplePreviewEnv (Some exampleSession)
                         [''preview:s1'' \<mapsto> (''{}'', 1800)])) ''preview:s1'' = None"
proof -
  have a: "truthyStr (sessionIdOf exampleSession)" "truthyStr (accessToken exampleSession)"
    "dateNow examplePreviewEnv < expiresAt exampleSession" "\<not> redisGetFails examplePreviewEnv"
    "\<not> redisDelFails examplePreviewEnv"
    by (simp_all add: exampleSession_def examplePreviewEnv_def truthyStr_def)
  have k: "the (sessionIdOf exampleSession) = ''s1''" by (simp add: exampleSession_def)
  have st: "[''preview:s1'' \<mapsto> (''{}'', 1800::nat)] (''preview:'' @ the (sessionIdOf exampleSession))
              = Some (''{}'', 1800)"
    by (simp add: k)
  have p: "jsonParse examplePreviewEnv ''{}'' = Some (JObj [])" by (simp add: examplePreviewEnv_def)
  have q: "previewResultSchema (JObj []) = None" by code_simp
  have m: "jsonParse examplePreviewEnv ''{}'' = None
           \<or> (\<exists>j. jsonParse examplePreviewEnv ''{}'' = Some j \<and> previewResultSchema j = None)"
    using p q by simp
  have ne: "''{}'' \<noteq> []" by simp
  from malformed_preview_deleted
         [where store = "[''preview:s1'' \<mapsto> (''{}'', 1800)]" and v = "''{}''" and ttl = 1800,
          OF a(1-4) st ne m]
       a(5) k p q a(1-3)
  show ?thesis by simp
qed

text \<open>
  C9 as stated fails on the empty string: it is not valid JSON, but the handler takes a
  falsy value for a missing one, replies 404 and leaves the entry in the store.
\<close>

theorem empty_preview_not_deleted:
  "jsonParse examplePreviewEnv [] = None
   \<and> fst (getPreview examplePreviewEnv (Some exampleSession) [''preview:s1'' \<mapsto> ([], 1800)])
       = Reply 404 (ErrorBody ''Not Found'' ''Preview data not found or expired. Please upload again.'')
   \<and> storeAfter (snd (getPreview examplePreviewEnv (Some exampleSession)
                         [''preview:s1'' \<mapsto> ([], 1800)])) ''preview:s1''
       = Some ([], 1800)
   \<and> delCalls (snd (getPreview examplePreviewEnv (Some exampleSession)
                       [''preview:s1'' \<mapsto> ([], 1800)])) = []"
  by (simp add: getPreview_def examplePreviewEnv_def exampleSession_def truthyStr_def)

end
